theory Spec2Isabelle
  imports Main "HOL-Library.Word" "HOL-Library.Sublist"
begin

section \<open>Go values\<close>

text \<open>
  Bytes are 8-bit words. Go's \<open>int\<close> (64-bit platforms) and \<open>time.Duration\<close> (an
  \<open>int64\<close> count of nanoseconds) are integers, with the two's-complement wrap-around of a
  multiplication written out by \<open>wrap64\<close>.
\<close>

type_synonym byte = "8 word"
type_synonym Duration = int

definition wrap64 :: "int \<Rightarrow> int" where
  "wrap64 x = (x + 2 ^ 63) mod 2 ^ 64 - 2 ^ 63"

definition Millisecond :: Duration where
  "Millisecond = 1000000"

definition Second :: Duration where
  "Second = 1000000000"

text \<open>
  An \<open>error\<close> value: one made outside this package (by the underlying transport, a
  context, an encoder), one made by \<open>errors.New\<close> or by \<open>fmt.Errorf\<close> without
  \<open>%w\<close>, one wrapping another with a prefix (\<open>fmt.Errorf("prefix: %w", err)\<close>), and
  the package's \<open>graphErr\<close>. \<open>Error\<close> is the method \<open>Error()\<close>.
\<close>

datatype error =
    Foreign string
  | ErrorsNew string
  | Wrapped string error
  | graphErr string

fun Error :: "error \<Rightarrow> string" where
  "Error (Foreign m) = m"
| "Error (ErrorsNew m) = m"
| "Error (Wrapped p e) = p @ Error e"
| "Error (graphErr m) = ''graphql: '' @ m"

text \<open>
  An \<open>io.Reader\<close> is the bytes it still has to deliver and how it ends: with EOF
  (\<open>None\<close>) or with a read error. \<open>io.ReadAll\<close> returns both.
\<close>

datatype reader = Reader (pending: "byte list") (failure: "error option")

definition ReadAll :: "reader \<Rightarrow> byte list \<times> error option" where
  "ReadAll rd = (pending rd, failure rd)"

definition NewBuffer :: "byte list \<Rightarrow> reader" where
  "NewBuffer bs = Reader bs None"

text \<open>What is left of a reader after \<open>n\<close> of its bytes were read.\<close>

definition consume :: "nat \<Rightarrow> reader \<Rightarrow> reader" where
  "consume n rd = Reader (drop n (pending rd)) (failure rd)"

text \<open>
  \<open>http.Header\<close> maps a canonical key to its values; \<open>Get\<close> returns the first value
  of the key, or the empty string. The only key this package reads, \<open>Retry-After\<close>, is
  written in canonical form.
\<close>

type_synonym http_Header = "string \<rightharpoonup> string list"

definition Header_Get :: "http_Header \<Rightarrow> string \<Rightarrow> string" where
  "Header_Get h key =
     (case h key of None \<Rightarrow> [] | Some [] \<Rightarrow> [] | Some (v # _) \<Rightarrow> v)"

record http_Response =
  StatusCode :: int
  RespHeader :: http_Header
  RespBody :: "reader option"

record http_Request =
  Method :: string
  URL :: string
  ReqHeader :: http_Header
  Body :: "reader option"
  Close :: bool

section \<open>strconv.Atoi\<close>

text \<open>
  Go's \<open>strconv.Atoi\<close> on a platform with 64-bit \<open>int\<close>, as the standard library
  writes it: a fast path for strings of 1 to 18 bytes, and \<open>ParseInt(s, 10, 0)\<close> over
  \<open>ParseUint\<close> for the rest. Each function returns the value together with the error;
  a syntax error comes with 0, a range error with the nearest representable value.
\<close>

datatype NumError = ErrSyntax | ErrRange

definition is_digit :: "char \<Rightarrow> bool" where
  "is_digit c = (48 \<le> (of_char c :: int) \<and> (of_char c :: int) \<le> 57)"

definition digit_val :: "char \<Rightarrow> int" where
  "digit_val c = of_char c - 48"

definition maxUint64 :: int where
  "maxUint64 = 18446744073709551615"

fun ParseUint_loop :: "int \<Rightarrow> string \<Rightarrow> int \<times> NumError option" where
  "ParseUint_loop n [] = (n, None)"
| "ParseUint_loop n (c # cs) =
     (if \<not> is_digit c then (0, Some ErrSyntax)
      else if n \<ge> maxUint64 div 10 + 1 then (maxUint64, Some ErrRange)
      else if n * 10 + digit_val c > maxUint64 then (maxUint64, Some ErrRange)
      else ParseUint_loop (n * 10 + digit_val c) cs)"

definition ParseUint :: "string \<Rightarrow> int \<times> NumError option" where
  "ParseUint s = (if s = [] then (0, Some ErrSyntax) else ParseUint_loop 0 s)"

definition ParseInt :: "string \<Rightarrow> int \<times> NumError option" where
  "ParseInt s =
     (if s = [] then (0, Some ErrSyntax)
      else
        let neg = (hd s = CHR ''-'');
            s1 = (if hd s = CHR ''+'' \<or> hd s = CHR ''-'' then tl s else s);
            (un, err) = ParseUint s1
        in if err = Some ErrSyntax then (0, err)
           else if \<not> neg \<and> un \<ge> 2 ^ 63 then (2 ^ 63 - 1, Some ErrRange)
           else if neg \<and> un > 2 ^ 63 then (- (2 ^ 63), Some ErrRange)
           else if neg then (- un, None)
           else (un, None))"

fun Atoi_fast :: "int \<Rightarrow> string \<Rightarrow> int option" where
  "Atoi_fast n [] = Some n"
| "Atoi_fast n (c # cs) =
     (if \<not> is_digit c then None else Atoi_fast (n * 10 + digit_val c) cs)"

definition Atoi :: "string \<Rightarrow> int \<times> NumError option" where
  "Atoi s =
     (if 0 < length s \<and> length s < 19 then
        let s1 = (if hd s = CHR ''-'' \<or> hd s = CHR ''+'' then tl s else s)
        in if length s1 < 1 then (0, Some ErrSyntax)
           else (case Atoi_fast 0 s1 of
                   None \<Rightarrow> (0, Some ErrSyntax)
                 | Some n \<Rightarrow> (if hd s = CHR ''-'' then - n else n, None))
      else ParseInt s)"

section \<open>The client and its requests\<close>

text \<open>
  A logger is a \<open>func(s string)\<close>: nil, the no-op that \<open>NewClient\<close> installs, or a
  sink of the caller, named by a number. Calling the nil one panics.
\<close>

datatype logger = NilFunc | NoLog | Sink nat

text \<open>
  A \<open>*http.Client\<close>: one whose transport is a \<open>retryableTransport\<close> with that
  logger and that default wait, as \<open>NewRetryableClient\<close> builds it, or a client with
  any other transport, named by a number.
\<close>

datatype http_Client = Retrying logger Duration | Plain nat

record Client =
  endpoint :: string
  httpClient :: "http_Client option"
  useMultipartForm :: bool
  defaultWaitAfterTooManyRequests :: Duration
  closeReq :: bool
  logDebug :: logger
  logWarn :: logger
  logErr :: logger

record File =
  Field :: string
  Name :: string
  R :: reader

text \<open>
  A GraphQL request. The values of the variables are of any type \<open>'v\<close>; the map of
  variables is nil until \<open>Var\<close> makes it.
\<close>

record 'v Request =
  q :: string
  vars :: "(string \<rightharpoonup> 'v) option"
  files :: "File list"
  Header :: http_Header

definition NewRequest :: "string \<Rightarrow> 'v Request" where
  "NewRequest query = \<lparr>q = query, vars = None, files = [], Header = Map.empty\<rparr>"

definition Var :: "'v Request \<Rightarrow> string \<Rightarrow> 'v \<Rightarrow> 'v Request" where
  "Var req key val =
     req\<lparr>vars := Some ((case vars req of None \<Rightarrow> Map.empty | Some m \<Rightarrow> m)(key \<mapsto> val))\<rparr>"

definition Vars :: "'v Request \<Rightarrow> (string \<rightharpoonup> 'v) option" where
  "Vars req = vars req"

definition Files :: "'v Request \<Rightarrow> File list" where
  "Files req = files req"

definition Query :: "'v Request \<Rightarrow> string" where
  "Query req = q req"

text \<open>The method \<open>File\<close> of a request: it appends a file to upload.\<close>

definition Request_File :: "'v Request \<Rightarrow> string \<Rightarrow> string \<Rightarrow> reader \<Rightarrow> 'v Request" where
  "Request_File req fieldName filename r =
     req\<lparr>files := files req @ [\<lparr>Field = fieldName, Name = filename, R = r\<rparr>]\<rparr>"

text \<open>
  A \<open>context.Context\<close> as \<open>Run\<close> sees it on entry: whether the channel of
  \<open>Done()\<close> is closed, and what \<open>Err()\<close> returns.
\<close>

record Context =
  Done_closed :: bool
  Err :: "error option"

section \<open>The retrying transport\<close>

definition RetryCount :: nat where
  "RetryCount = 5"

text \<open>
  One call of the underlying \<open>RoundTripper\<close>: the response and the error it returns (Go
  lets both be nil, or both be set) and how many bytes of the request body it read.
\<close>

record rt_out =
  out_resp :: "http_Response option"
  out_err :: "error option"
  out_read :: nat

record 's retryableTransport =
  transport :: "'s \<Rightarrow> http_Request \<Rightarrow> rt_out \<times> 's"
  defaultWaitAfterTooManyRequests :: Duration
  logger :: logger

text \<open>
  The two messages \<open>RoundTrip\<close> logs, by their arguments: \<open>"server returned %d,
  retrying after %s"\<close> and \<open>"server returned %d, retrying right now"\<close>.
\<close>

datatype retry_msg = RetryingAfter int Duration | RetryingNow int

text \<open>
  What a call does to the world, in order: a call of the underlying transport (the
  request as it is at that moment, and what the transport returned), a
  \<open>time.Sleep\<close>, a call of the logger, a response body drained and closed.
\<close>

datatype event =
    Attempt http_Request rt_out
  | Sleep Duration
  | Logged logger retry_msg
  | Drained http_Response

record 's world =
  net :: 's
  trace :: "event list"

definition emit :: "event \<Rightarrow> 's world \<Rightarrow> 's world" where
  "emit e w = w\<lparr>trace := trace w @ [e]\<rparr>"

datatype panic = NilDereference

definition shouldRetry ::
  "'s retryableTransport \<Rightarrow> error option \<Rightarrow> http_Response option \<Rightarrow> panic + (Duration \<times> bool)" where
  "shouldRetry t err resp =
     (case err of
        Some _ \<Rightarrow> Inr (0, False)
      | None \<Rightarrow>
          (case resp of
             None \<Rightarrow> Inl NilDereference
           | Some r \<Rightarrow>
               if StatusCode r = 502 \<or> StatusCode r = 503 \<or> StatusCode r = 504
               then Inr (250 * Millisecond, True)
               else if StatusCode r = 429 then
                 let waitTimeInSecs = fst (Atoi (Header_Get (RespHeader r) ''Retry-After''));
                     waitTimeDuration = wrap64 (waitTimeInSecs * Second)
                 in Inr (if waitTimeInSecs = 0 then defaultWaitAfterTooManyRequests t
                         else waitTimeDuration, True)
               else Inr (0, False)))"

definition drainBody :: "http_Response \<Rightarrow> 's world \<Rightarrow> 's world" where
  "drainBody resp w = (if RespBody resp \<noteq> None then emit (Drained resp) w else w)"

text \<open>
  \<open>t.transport.RoundTrip(req)\<close>: the transport answers and moves to its next state,
  the call is recorded, and the body reader of the request has lost the bytes the
  transport read.
\<close>

definition send :: "'s retryableTransport \<Rightarrow> http_Request \<Rightarrow> 's world
    \<Rightarrow> http_Response option \<times> error option \<times> http_Request \<times> 's world" where
  "send t req w =
     (let (out, s') = transport t (net w) req
      in (out_resp out, out_err out,
          req\<lparr>Body := map_option (consume (out_read out)) (Body req)\<rparr>,
          (emit (Attempt req out) w)\<lparr>net := s'\<rparr>))"

text \<open>
  The \<open>for retries < RetryCount\<close> loop. Its result is the state at the loop's exit, or
  a panic with the world as it was: \<open>shouldRetry\<close> on a nil response, or the call of
  a nil logger.
\<close>

function retry_loop :: "'s retryableTransport \<Rightarrow> byte list \<Rightarrow> http_Request \<Rightarrow> http_Response option
    \<Rightarrow> error option \<Rightarrow> nat \<Rightarrow> 's world
    \<Rightarrow> (panic + (http_Response option \<times> error option \<times> nat)) \<times> http_Request \<times> 's world" where
  "retry_loop t bodyBytes req resp err retries w =
     (if retries < RetryCount then
        (case shouldRetry t err resp of
           Inl p \<Rightarrow> (Inl p, req, w)
         | Inr (timeToWait, toRetry) \<Rightarrow>
             if \<not> toRetry then (Inr (resp, err, retries), req, w)
             else
               (case resp of
                  None \<Rightarrow> (Inl NilDereference, req, w)
                | Some r \<Rightarrow>
                    if logger t = NilFunc then (Inl NilDereference, req, w)
                    else
                      let w1 = (if timeToWait > 0
                                then emit (Sleep timeToWait)
                                       (emit (Logged (logger t) (RetryingAfter (StatusCode r) timeToWait)) w)
                                else emit (Logged (logger t) (RetryingNow (StatusCode r))) w);
                          w2 = drainBody r w1;
                          req1 = (if Body req \<noteq> None
                                  then req\<lparr>Body := Some (NewBuffer bodyBytes)\<rparr> else req);
                          (resp', err', req2, w3) = send t req1 w2
                      in retry_loop t bodyBytes req2 resp' err' (retries + 1) w3))
      else (Inr (resp, err, retries), req, w))"
  by pat_completeness auto
termination
  by (relation "measure (\<lambda>(t, bodyBytes, req, resp, err, retries, w). RetryCount - retries)") auto

declare retry_loop.simps [simp del]

text \<open>
  The first lines of \<open>RoundTrip\<close>: a body that is not nil is read to its end (the
  error of \<open>io.ReadAll\<close> is dropped) and replaced by a buffer over the bytes read.
\<close>

definition cloneBody :: "http_Request \<Rightarrow> byte list \<times> http_Request" where
  "cloneBody req =
     (case Body req of
        None \<Rightarrow> ([], req)
      | Some rd \<Rightarrow> (fst (ReadAll rd), req\<lparr>Body := Some (NewBuffer (fst (ReadAll rd)))\<rparr>))"

definition RoundTrip :: "'s retryableTransport \<Rightarrow> http_Request \<Rightarrow> 's world
    \<Rightarrow> (panic + (http_Response option \<times> error option)) \<times> http_Request \<times> 's world" where
  "RoundTrip t req w =
     (let (bodyBytes, req0) = cloneBody req;
          (resp, err, req1, w1) = send t req0 w
      in case retry_loop t bodyBytes req1 resp err 0 w1 of
           (Inl p, req2, w2) \<Rightarrow> (Inl p, req2, w2)
         | (Inr (resp, err, retries), req2, w2) \<Rightarrow>
             if retries \<ge> RetryCount then
               (case err of
                  Some e \<Rightarrow>
                    (Inr (resp, Some (ErrorsNew (''retry limit reached (err='' @ Error e @ '')''))),
                     req2, w2)
                | None \<Rightarrow> (Inr (resp, Some (ErrorsNew ''retry limit reached'')), req2, w2))
             else (Inr (resp, err), req2, w2))"

definition NewRetryableClient :: "logger \<Rightarrow> Duration \<Rightarrow> http_Client" where
  "NewRetryableClient lg defaultWait = Retrying lg defaultWait"

section \<open>Building a client\<close>

text \<open>
  A \<open>ClientOption\<close> is a \<open>func(*Client)\<close>. The fields of \<open>Client\<close> are not
  exported, so the options of a caller are the ones this package builds; each is
  named here by its constructor, and \<open>apply_option\<close> is the function it stands for.
\<close>

datatype ClientOption =
    WithHTTPClient "http_Client option"
  | UseMultipartForm
  | ImmediatelyCloseReqBody
  | WithWaitAfterTooManyRequests Duration
  | WithLogDebug logger
  | WithLogError logger
  | WithLogWarn logger

fun apply_option :: "ClientOption \<Rightarrow> Client \<Rightarrow> Client" where
  "apply_option (WithHTTPClient httpclient) client = client\<lparr>httpClient := httpclient\<rparr>"
| "apply_option UseMultipartForm client = client\<lparr>useMultipartForm := True\<rparr>"
| "apply_option ImmediatelyCloseReqBody client = client\<lparr>closeReq := True\<rparr>"
| "apply_option (WithWaitAfterTooManyRequests duration) client =
     client\<lparr>Client.defaultWaitAfterTooManyRequests := duration\<rparr>"
| "apply_option (WithLogDebug lg) client = client\<lparr>logDebug := lg\<rparr>"
| "apply_option (WithLogError lg) client = client\<lparr>logErr := lg\<rparr>"
| "apply_option (WithLogWarn lg) client = client\<lparr>logWarn := lg\<rparr>"

definition NewClient :: "string \<Rightarrow> ClientOption list \<Rightarrow> Client" where
  "NewClient ep opts =
     (let c0 = \<lparr>endpoint = ep, httpClient = None, useMultipartForm = False,
                 Client.defaultWaitAfterTooManyRequests = 0, closeReq = False,
                 logDebug = NoLog, logWarn = NoLog, logErr = NoLog\<rparr>;
          c = foldl (\<lambda>c optionFunc. apply_option optionFunc c) c0 opts
      in if httpClient c = None
         then c\<lparr>httpClient :=
                  Some (NewRetryableClient (logWarn c) (Client.defaultWaitAfterTooManyRequests c))\<rparr>
         else c)"

section \<open>Running a request\<close>

text \<open>
  What \<open>Run\<close> takes from the standard library, as parameters: the JSON encoder of the
  request body and of the variables, the bytes and the content type of a multipart
  form (query, encoded variables if any, and the files by field, name and content),
  the canonical form of a header key, the order in which a \<open>range\<close> visits a header
  map, the error of \<open>http.NewRequest\<close> for an endpoint, \<open>Do\<close> of a client of the
  caller (it returns an error or a response, and changes the state \<open>'n\<close> of the
  outside), the \<open>RoundTrip\<close> of \<open>&http.Transport{}\<close>, the error in which
  \<open>http.Client.Do\<close> wraps the error of its transport, and the JSON decoder of the
  response envelope (an error, or the messages of the \<open>errors\<close> field).
\<close>

record ('v, 'n) platform =
  json_Encode_body :: "string \<Rightarrow> (string \<rightharpoonup> 'v) option \<Rightarrow> error + byte list"
  json_Encode_vars :: "(string \<rightharpoonup> 'v) option \<Rightarrow> error + byte list"
  multipart_form :: "string \<Rightarrow> byte list option \<Rightarrow> (string \<times> string \<times> byte list) list \<Rightarrow> byte list"
  FormDataContentType :: string
  CanonicalMIMEHeaderKey :: "string \<Rightarrow> string"
  range_Header :: "http_Header \<Rightarrow> (string \<times> string list) list"
  NewRequest_error :: "string \<Rightarrow> error option"
  plain_Do :: "nat \<Rightarrow> Context \<Rightarrow> http_Request \<Rightarrow> 'n \<Rightarrow> (error + http_Response) \<times> 'n"
  base_RoundTrip :: "'n \<Rightarrow> http_Request \<Rightarrow> rt_out \<times> 'n"
  url_Error :: "http_Request \<Rightarrow> error \<Rightarrow> error"
  json_Decode :: "byte list \<Rightarrow> error + string list"

text \<open>The log lines of \<open>Run\<close>, by their format and arguments.\<close>

datatype 'v run_msg =
    Variables "(string \<rightharpoonup> 'v) option"
  | VariablesText "byte list"
  | FilesCount nat
  | QueryText string
  | Headers http_Header
  | ErrorText error
  | Non200 int
  | BodyText "byte list"

text \<open>
  What \<open>Run\<close> does to the world, in order: it starts encoding the request, calls a
  logger, hands a request to an HTTP client, decodes a response body into the
  caller's response object; and what the retrying transport does when the HTTP
  client is the retrying one.
\<close>

datatype 'v run_event =
    Encoding
  | Log logger "'v run_msg"
  | HTTP http_Client http_Request
  | Decoding "byte list"
  | Transport event

record ('v, 'n) run_world =
  outside :: 'n
  events :: "'v run_event list"

definition observe :: "'v run_event \<Rightarrow> ('v, 'n) run_world \<Rightarrow> ('v, 'n) run_world" where
  "observe e w = w\<lparr>events := events w @ [e]\<rparr>"

text \<open>A call of a logger: the nil one panics, any other one is recorded.\<close>

definition call_logger :: "logger \<Rightarrow> 'v run_msg \<Rightarrow> ('v, 'n) run_world
    \<Rightarrow> panic + ('v, 'n) run_world" where
  "call_logger lg m w = (if lg = NilFunc then Inl NilDereference else Inr (observe (Log lg m) w))"

definition logDebugf :: "Client \<Rightarrow> 'v run_msg \<Rightarrow> ('v, 'n) run_world
    \<Rightarrow> panic + ('v, 'n) run_world" where
  "logDebugf c m w = call_logger (logDebug c) m w"

definition logErrorf :: "Client \<Rightarrow> 'v run_msg \<Rightarrow> ('v, 'n) run_world
    \<Rightarrow> panic + ('v, 'n) run_world" where
  "logErrorf c m w = call_logger (logErr c) m w"

definition logWarnf :: "Client \<Rightarrow> 'v run_msg \<Rightarrow> ('v, 'n) run_world
    \<Rightarrow> panic + ('v, 'n) run_world" where
  "logWarnf c m w = call_logger (logWarn c) m w"

text \<open>\<open>fmt\<close>'s \<open>%v\<close> of an \<open>int\<close>: its decimal digits.\<close>

fun digits10 :: "nat \<Rightarrow> string" where
  "digits10 n =
     (if n < 10 then [char_of (48 + n)] else digits10 (n div 10) @ [char_of (48 + n mod 10)])"

declare digits10.simps [simp del]

definition itoa :: "int \<Rightarrow> string" where
  "itoa i = (if i < 0 then CHR ''-'' # digits10 (nat (- i)) else digits10 (nat i))"

definition Header_Set :: "(string \<Rightarrow> string) \<Rightarrow> http_Header \<Rightarrow> string \<Rightarrow> string \<Rightarrow> http_Header" where
  "Header_Set canon h key val = h(canon key \<mapsto> [val])"

definition Header_Add :: "(string \<Rightarrow> string) \<Rightarrow> http_Header \<Rightarrow> string \<Rightarrow> string \<Rightarrow> http_Header" where
  "Header_Add canon h key val =
     h(canon key \<mapsto> (case h (canon key) of None \<Rightarrow> [] | Some vs \<Rightarrow> vs) @ [val])"

text \<open>
  The request \<open>Run\<close> sends: \<open>http.NewRequest\<close> with method POST, the endpoint and the
  body, then \<open>Close\<close>, the two headers, and the headers of the GraphQL request added
  key by key, value by value.
\<close>

definition build_request ::
  "('v, 'n) platform \<Rightarrow> Client \<Rightarrow> 'v Request \<Rightarrow> string \<Rightarrow> byte list \<Rightarrow> http_Request" where
  "build_request pf c req contentType requestBody =
     (let canon = CanonicalMIMEHeaderKey pf;
          h0 = Header_Set canon Map.empty ''Content-Type'' contentType;
          h1 = Header_Set canon h0 ''Accept'' ''application/json; charset=utf-8'';
          h2 = fold (\<lambda>(key, values) h. fold (\<lambda>val h. Header_Add canon h key val) values h)
                 (range_Header pf (Header req)) h1
      in \<lparr>Method = ''POST'', URL = endpoint c, ReqHeader = h2,
          Body = Some (NewBuffer requestBody), Close = closeReq c\<rparr>)"

text \<open>
  \<open>Do\<close> of an HTTP client. A client of the caller is the platform's. The client of
  \<open>NewRetryableClient\<close> is \<open>http.Client.Do\<close> over the retrying transport: one
  \<open>RoundTrip\<close> on the network (a redirect, for which \<open>Do\<close> would call \<open>RoundTrip\<close>
  again, is left out), whose events are recorded; an error of the transport is
  wrapped by the library and the response that came with it is dropped, and a nil
  response with a nil error is an error of the library.
\<close>

definition client_Do :: "('v, 'n) platform \<Rightarrow> http_Client \<Rightarrow> Context \<Rightarrow> http_Request
    \<Rightarrow> ('v, 'n) run_world \<Rightarrow> (panic + (error + http_Response)) \<times> ('v, 'n) run_world" where
  "client_Do pf hc ctx r w =
     (let w0 = observe (HTTP hc r) w
      in case hc of
           Plain i \<Rightarrow>
             (case plain_Do pf i ctx r (outside w0) of
                (res, n') \<Rightarrow> (Inr res, w0\<lparr>outside := n'\<rparr>))
         | Retrying lg d \<Rightarrow>
             (case RoundTrip \<lparr>transport = base_RoundTrip pf, defaultWaitAfterTooManyRequests = d,
                               logger = lg\<rparr> r \<lparr>net = outside w0, trace = []\<rparr> of
                (out, r', tw) \<Rightarrow>
                  let w1 = w0\<lparr>outside := net tw, events := events w0 @ map Transport (trace tw)\<rparr>
                  in (case out of
                        Inl p \<Rightarrow> (Inl p, w1)
                      | Inr (resp, Some err) \<Rightarrow> (Inr (Inl (url_Error pf r err)), w1)
                      | Inr (Some resp, None) \<Rightarrow> (Inr (Inr resp), w1)
                      | Inr (None, None) \<Rightarrow>
                          (Inr (Inl (Foreign
                             ''http: RoundTripper implementation returned a nil *Response with a nil error'')),
                           w1))))"

definition doRequest :: "('v, 'n) platform \<Rightarrow> Client \<Rightarrow> Context \<Rightarrow> http_Request
    \<Rightarrow> ('v, 'n) run_world \<Rightarrow> (panic + (byte list \<times> int \<times> error option)) \<times> ('v, 'n) run_world" where
  "doRequest pf c ctx r w =
     (case httpClient c of
        None \<Rightarrow> (Inl NilDereference, w)
      | Some hc \<Rightarrow>
          (case client_Do pf hc ctx r w of
             (Inl p, w1) \<Rightarrow> (Inl p, w1)
           | (Inr (Inl err), w1) \<Rightarrow>
               (case logErrorf c (ErrorText err) w1 of
                  Inl p \<Rightarrow> (Inl p, w1)
                | Inr w2 \<Rightarrow> (Inr ([], 500, Some err), w2))
           | (Inr (Inr res), w1) \<Rightarrow>
               (case RespBody res of
                  None \<Rightarrow> (Inl NilDereference, w1)
                | Some body \<Rightarrow>
                    (case ReadAll body of
                       (buf, Some err) \<Rightarrow>
                         (Inr (buf, StatusCode res, Some (Wrapped ''reading body: '' err)), w1)
                     | (buf, None) \<Rightarrow> (Inr (buf, StatusCode res, None), w1)))))"

text \<open>The first of the errors a decoded envelope reports, if any.\<close>

definition first_error :: "string list \<Rightarrow> error option" where
  "first_error errs = (case errs of [] \<Rightarrow> None | m # _ \<Rightarrow> Some (graphErr m))"

definition runWithJSON :: "('v, 'n) platform \<Rightarrow> Client \<Rightarrow> Context \<Rightarrow> 'v Request
    \<Rightarrow> ('v, 'n) run_world \<Rightarrow> (panic + error option) \<times> 'v Request \<times> ('v, 'n) run_world" where
  "runWithJSON pf c ctx req w =
     (let w1 = observe Encoding w
      in (case json_Encode_body pf (q req) (vars req) of
            Inl err \<Rightarrow> (Inr (Some (Wrapped ''encode body: '' err)), req, w1)
          | Inr requestBody \<Rightarrow>
             (case logDebugf c (Variables (vars req)) w1 of
                Inl p \<Rightarrow> (Inl p, req, w1)
              | Inr w2 \<Rightarrow>
                 (case logDebugf c (QueryText (q req)) w2 of
                    Inl p \<Rightarrow> (Inl p, req, w2)
                  | Inr w3 \<Rightarrow>
                     (case NewRequest_error pf (endpoint c) of
                        Some err \<Rightarrow> (Inr (Some err), req, w3)
                      | None \<Rightarrow>
                         (let r = build_request pf c req ''application/json; charset=utf-8'' requestBody
                          in (case logDebugf c (Headers (ReqHeader r)) w3 of
                                Inl p \<Rightarrow> (Inl p, req, w3)
                              | Inr w4 \<Rightarrow>
                                 (case doRequest pf c ctx r w4 of
                                    (Inl p, w5) \<Rightarrow> (Inl p, req, w5)
                                  | (Inr (buf, status, Some err), w5) \<Rightarrow> (Inr (Some err), req, w5)
                                  | (Inr (buf, status, None), w5) \<Rightarrow>
                                     (if status \<noteq> 200 then
                                        (case logErrorf c (Non200 status) w5 of
                                           Inl p \<Rightarrow> (Inl p, req, w5)
                                         | Inr w6 \<Rightarrow>
                                            (case logErrorf c (BodyText buf) w6 of
                                               Inl p \<Rightarrow> (Inl p, req, w6)
                                             | Inr w7 \<Rightarrow>
                                                 (Inr (Some (ErrorsNew
                                                    (''graphql: server returned a non-200 status code: ''
                                                      @ itoa status))), req, w7)))
                                      else
                                        (case logDebugf c (BodyText buf) w5 of
                                           Inl p \<Rightarrow> (Inl p, req, w5)
                                         | Inr w6 \<Rightarrow>
                                            (let w7 = observe (Decoding buf) w6
                                             in (case json_Decode pf buf of
                                                   Inl err \<Rightarrow>
                                                     (Inr (Some (Wrapped ''decoding response: '' err)),
                                                      req, w7)
                                                 | Inr errs \<Rightarrow>
                                                     (Inr (first_error errs), req, w7)))))))))))))"

text \<open>
  The loop over the files of \<open>runWithPostFields\<close>: each file is read to its end into
  the form; the first read error stops the loop. The result is that error, if any,
  and the files with their readers as the loop leaves them.
\<close>

fun copy_files :: "File list \<Rightarrow> error option \<times> File list" where
  "copy_files [] = (None, [])"
| "copy_files (f # fs) =
     (case failure (R f) of
        Some err \<Rightarrow> (Some err, f\<lparr>R := consume (length (pending (R f))) (R f)\<rparr> # fs)
      | None \<Rightarrow>
          (case copy_files fs of
             (err, fs') \<Rightarrow> (err, f\<lparr>R := consume (length (pending (R f))) (R f)\<rparr> # fs')))"

text \<open>
  The multipart writer writes into a \<open>bytes.Buffer\<close>, whose \<open>Write\<close> returns no error:
  \<open>WriteField\<close>, \<open>CreateFormField\<close>, \<open>CreateFormFile\<close> and \<open>Close\<close> succeed, and the
  errors left are those of the encoder of the variables and of the readers of the
  files.
\<close>

definition runWithPostFields :: "('v, 'n) platform \<Rightarrow> Client \<Rightarrow> Context \<Rightarrow> 'v Request
    \<Rightarrow> ('v, 'n) run_world \<Rightarrow> (panic + error option) \<times> 'v Request \<times> ('v, 'n) run_world" where
  "runWithPostFields pf c ctx req w =
     (let w1 = observe Encoding w;
          encoded = (if (case vars req of None \<Rightarrow> False | Some m \<Rightarrow> m \<noteq> Map.empty)
                     then (case json_Encode_vars pf (vars req) of
                             Inl err \<Rightarrow> Inl err | Inr bs \<Rightarrow> Inr (Some bs))
                     else Inr None)
      in (case encoded of
            Inl err \<Rightarrow> (Inr (Some (Wrapped ''encode variables: '' err)), req, w1)
          | Inr variablesBuf \<Rightarrow>
             (case copy_files (files req) of
                (Some err, fs') \<Rightarrow>
                  (Inr (Some (Wrapped ''preparing file: '' err)), req\<lparr>files := fs'\<rparr>, w1)
              | (None, fs') \<Rightarrow>
                 (let req1 = req\<lparr>files := fs'\<rparr>;
                      requestBody = multipart_form pf (q req) variablesBuf
                        (map (\<lambda>f. (Field f, Name f, pending (R f))) (files req))
                  in (case logDebugf c
                             (VariablesText (case variablesBuf of None \<Rightarrow> [] | Some bs \<Rightarrow> bs)) w1 of
                        Inl p \<Rightarrow> (Inl p, req1, w1)
                      | Inr w2 \<Rightarrow>
                    (case logDebugf c (FilesCount (length (files req))) w2 of
                        Inl p \<Rightarrow> (Inl p, req1, w2)
                      | Inr w3 \<Rightarrow>
                    (case logDebugf c (QueryText (q req)) w3 of
                        Inl p \<Rightarrow> (Inl p, req1, w3)
                      | Inr w4 \<Rightarrow>
                    (case NewRequest_error pf (endpoint c) of
                        Some err \<Rightarrow> (Inr (Some err), req1, w4)
                      | None \<Rightarrow>
                    (let r = build_request pf c req (FormDataContentType pf) requestBody
                     in (case logDebugf c (Headers (ReqHeader r)) w4 of
                           Inl p \<Rightarrow> (Inl p, req1, w4)
                         | Inr w5 \<Rightarrow>
                    (case httpClient c of
                        None \<Rightarrow> (Inl NilDereference, req1, w5)
                      | Some hc \<Rightarrow>
                    (case client_Do pf hc ctx r w5 of
                        (Inl p, w6) \<Rightarrow> (Inl p, req1, w6)
                      | (Inr (Inl err), w6) \<Rightarrow> (Inr (Some err), req1, w6)
                      | (Inr (Inr res), w6) \<Rightarrow>
                    (case RespBody res of
                        None \<Rightarrow> (Inl NilDereference, req1, w6)
                      | Some body \<Rightarrow>
                    (case ReadAll body of
                        (buf, Some err) \<Rightarrow>
                          (Inr (Some (Wrapped ''reading body: '' err)), req1, w6)
                      | (buf, None) \<Rightarrow>
                    (case logDebugf c (BodyText buf) w6 of
                        Inl p \<Rightarrow> (Inl p, req1, w6)
                      | Inr w7 \<Rightarrow>
                    (let w8 = observe (Decoding buf) w7
                     in (case json_Decode pf buf of
                           Inl err \<Rightarrow>
                             (if StatusCode res \<noteq> 200 then
                                (Inr (Some (ErrorsNew
                                   (''graphql: server returned a non-200 status code: ''
                                     @ itoa (StatusCode res)))), req1, w8)
                              else
                                (Inr (Some (Wrapped ''decoding response: '' err)), req1, w8))
                         | Inr errs \<Rightarrow> (Inr (first_error errs), req1, w8))))))))))))))))))"

definition Run :: "('v, 'n) platform \<Rightarrow> Client \<Rightarrow> Context \<Rightarrow> 'v Request
    \<Rightarrow> ('v, 'n) run_world \<Rightarrow> (panic + error option) \<times> 'v Request \<times> ('v, 'n) run_world" where
  "Run pf c ctx req w =
     (if Done_closed ctx then (Inr (Err ctx), req, w)
      else if length (files req) > 0 \<and> \<not> useMultipartForm c then
        (Inr (Some (ErrorsNew ''cannot send files with PostFields option'')), req, w)
      else if useMultipartForm c then runWithPostFields pf c ctx req w
      else runWithJSON pf c ctx req w)"

text \<open>
  Two pieces of the loop body, named for the proofs: the world once the retry is
  announced, waited for and the old response drained; and the request once its body
  is cloned again.
\<close>

definition before_retry :: "'s retryableTransport \<Rightarrow> http_Response \<Rightarrow> Duration \<Rightarrow> 's world \<Rightarrow> 's world" where
  "before_retry t r d w =
     drainBody r (if d > 0 then emit (Sleep d) (emit (Logged (logger t) (RetryingAfter (StatusCode r) d)) w)
                  else emit (Logged (logger t) (RetryingNow (StatusCode r))) w)"

definition reclone :: "byte list \<Rightarrow> http_Request \<Rightarrow> http_Request" where
  "reclone bb req = (if Body req \<noteq> None then req\<lparr>Body := Some (NewBuffer bb)\<rparr> else req)"

section \<open>Reading a trace\<close>

fun attempts :: "event list \<Rightarrow> (http_Request \<times> rt_out) list" where
  "attempts [] = []"
| "attempts (Attempt rq out # es) = (rq, out) # attempts es"
| "attempts (_ # es) = attempts es"

fun sleeps :: "event list \<Rightarrow> Duration list" where
  "sleeps [] = []"
| "sleeps (Sleep d # es) = d # sleeps es"
| "sleeps (_ # es) = sleeps es"

text \<open>The attempts and the waits of a trace, in the order they happened.\<close>

datatype tick = Try | Wait Duration

fun timeline :: "event list \<Rightarrow> tick list" where
  "timeline [] = []"
| "timeline (Attempt rq out # es) = Try # timeline es"
| "timeline (Sleep d # es) = Wait d # timeline es"
| "timeline (_ # es) = timeline es"

text \<open>
  What the last of a list of calls returned, or \<open>before\<close> when there was no call.
\<close>

definition last_outcome ::
  "http_Response option \<times> error option \<Rightarrow> (http_Request \<times> rt_out) list
    \<Rightarrow> http_Response option \<times> error option" where
  "last_outcome before calls =
     (if calls = [] then before else (out_resp (snd (last calls)), out_err (snd (last calls))))"

text \<open>The message of the error that \<open>RoundTrip\<close> makes once the counter is at its bound.\<close>

definition exhausted_message :: "error option \<Rightarrow> string" where
  "exhausted_message err =
     (case err of
        Some e \<Rightarrow> ''retry limit reached (err='' @ Error e @ '')''
      | None \<Rightarrow> ''retry limit reached'')"

section \<open>The header value as the specification reads it\<close>

text \<open>
  The specification reads the \<open>Retry-After\<close> value as a non-negative integer
  number of seconds: a non-empty string of decimal digits, with the usual value. A
  value is malformed here when, after one optional sign, nothing is left or one of
  the first 19 characters is not a digit.
\<close>

definition decimal_from :: "int \<Rightarrow> string \<Rightarrow> int" where
  "decimal_from n ds = foldl (\<lambda>m c. m * 10 + digit_val c) n ds"

definition decimal :: "string \<Rightarrow> int" where
  "decimal ds = decimal_from 0 ds"

definition numeral_string :: "string \<Rightarrow> bool" where
  "numeral_string ds \<longleftrightarrow> ds \<noteq> [] \<and> list_all is_digit ds"

definition unsigned_part :: "string \<Rightarrow> string" where
  "unsigned_part s = (if s \<noteq> [] \<and> (hd s = CHR ''+'' \<or> hd s = CHR ''-'') then tl s else s)"

definition malformed :: "string \<Rightarrow> bool" where
  "malformed s \<longleftrightarrow> unsigned_part s = [] \<or> \<not> list_all is_digit (take 19 (unsigned_part s))"

text \<open>
  A signed numeral is one optional sign and then a non-empty string of decimal
  digits; its value carries the sign. \<open>saturate64\<close> brings a value into the range
  of an \<open>int64\<close>.
\<close>

definition signed_numeral :: "string \<Rightarrow> bool" where
  "signed_numeral s \<longleftrightarrow> numeral_string (unsigned_part s)"

definition signed_value :: "string \<Rightarrow> int" where
  "signed_value s =
     (if s \<noteq> [] \<and> hd s = CHR ''-'' then - decimal (unsigned_part s) else decimal (unsigned_part s))"

definition saturate64 :: "int \<Rightarrow> int" where
  "saturate64 v = max (- (2 ^ 63)) (min (2 ^ 63 - 1) v)"

section \<open>Reading the events of a run\<close>

text \<open>The calls of an HTTP client among the events, in order.\<close>

fun http_calls :: "'v run_event list \<Rightarrow> (http_Client \<times> http_Request) list" where
  "http_calls [] = []"
| "http_calls (HTTP hc r # es) = (hc, r) # http_calls es"
| "http_calls (_ # es) = http_calls es"

text \<open>What the retrying transport did among the events, in order.\<close>

fun retry_events :: "'v run_event list \<Rightarrow> event list" where
  "retry_events [] = []"
| "retry_events (Transport e # es) = e # retry_events es"
| "retry_events (_ # es) = retry_events es"


text \<open>
  Between two worlds, at most one call of an HTTP client was added, it was a call of
  the client \<open>Plain i\<close>, and the retrying transport did nothing.
\<close>

definition plain_step :: "nat \<Rightarrow> ('v, 'n) run_world \<Rightarrow> ('v, 'n) run_world \<Rightarrow> bool" where
  "plain_step i w w' \<longleftrightarrow>
     (\<exists>new. http_calls (events w') = http_calls (events w) @ new \<and> length new \<le> 1 \<and>
        (\<forall>x \<in> set new. fst x = Plain i)) \<and>
     retry_events (events w') = retry_events (events w)"

section \<open>Transports for the examples\<close>

text \<open>
  A response with a status code, no header and an empty body; a transport that plays
  a script, one entry per call, reading the whole request body each time, and fails
  once the script is over.
\<close>

definition reply :: "int \<Rightarrow> rt_out" where
  "reply code =
     \<lparr>out_resp = Some \<lparr>StatusCode = code, RespHeader = Map.empty,
                          RespBody = Some (Reader [] None)\<rparr>,
      out_err = None, out_read = 0\<rparr>"

definition refuse :: "string \<Rightarrow> rt_out" where
  "refuse m = \<lparr>out_resp = None, out_err = Some (Foreign m), out_read = 0\<rparr>"

definition scripted :: "rt_out list \<Rightarrow> http_Request \<Rightarrow> rt_out \<times> rt_out list" where
  "scripted script req =
     (let n = (case Body req of None \<Rightarrow> 0 | Some rd \<Rightarrow> length (pending rd))
      in case script of
           [] \<Rightarrow> (refuse ''script over'', [])
         | out # rest \<Rightarrow> (out\<lparr>out_read := n\<rparr>, rest))"

definition always :: "rt_out \<Rightarrow> unit \<Rightarrow> http_Request \<Rightarrow> rt_out \<times> unit" where
  "always out s req = (out, s)"

definition post :: "byte list \<Rightarrow> http_Request" where
  "post bs = \<lparr>Method = ''POST'', URL = ''http://localhost/graphql'', ReqHeader = Map.empty,
              Body = Some (Reader bs None), Close = False\<rparr>"

definition bodiless :: http_Request where
  "bodiless = \<lparr>Method = ''GET'', URL = ''http://localhost/graphql'', ReqHeader = Map.empty,
               Body = None, Close = False\<rparr>"

text \<open>
  What one round of the loop leaves in the trace when the scripted transport answered
  503: the attempt, the log line, the sleep, the drained response.
\<close>

definition round_503 :: "byte list \<Rightarrow> event list" where
  "round_503 bs =
     [Attempt (post bs) (reply 503\<lparr>out_read := length bs\<rparr>),
      Logged NoLog (RetryingAfter 503 (250 * Millisecond)),
      Sleep (250 * Millisecond),
      Drained \<lparr>StatusCode = 503, RespHeader = Map.empty, RespBody = Some (Reader [] None)\<rparr>]"

text \<open>A 429 response whose \<open>Retry-After\<close> header has the given values, if any.\<close>

definition too_many :: "string list option \<Rightarrow> http_Response" where
  "too_many v =
     \<lparr>StatusCode = 429, RespHeader = (\<lambda>k. if k = ''Retry-After'' then v else None),
      RespBody = Some (Reader [] None)\<rparr>"

definition scripted_transport :: "rt_out list retryableTransport" where
  "scripted_transport =
     \<lparr>transport = scripted, defaultWaitAfterTooManyRequests = 0, logger = NoLog\<rparr>"

definition playing :: "rt_out list \<Rightarrow> rt_out list world" where
  "playing script = \<lparr>net = script, trace = []\<rparr>"

text \<open>
  For the examples of \<open>Run\<close>: a platform whose encoders and decoder succeed, where
  the clients of the caller answer 200 with an empty body and the network answers 503
  to the retrying transport; a world where nothing has happened, a
  context already cancelled, one that is not done, and a request with one file.
\<close>

definition stub_platform :: "(unit, unit) platform" where
  "stub_platform =
     \<lparr>json_Encode_body = (\<lambda>query vs. Inr []),
      json_Encode_vars = (\<lambda>vs. Inr []),
      multipart_form = (\<lambda>query vs fs. []),
      FormDataContentType = ''multipart/form-data; boundary=x'',
      CanonicalMIMEHeaderKey = (\<lambda>k. k),
      range_Header = (\<lambda>h. []),
      NewRequest_error = (\<lambda>url. None),
      plain_Do = (\<lambda>i ctx r n.
              (Inr \<lparr>StatusCode = 200, RespHeader = Map.empty, RespBody = Some (Reader [] None)\<rparr>, n)),
      base_RoundTrip = always (reply 503),
      url_Error = (\<lambda>r err. Wrapped ''Post: '' err),
      json_Decode = (\<lambda>bs. Inr [])\<rparr>"

definition idle :: "(unit, unit) run_world" where
  "idle = \<lparr>outside = (), events = []\<rparr>"

definition cancelled :: Context where
  "cancelled = \<lparr>Done_closed = True, Err = Some (Foreign ''context canceled'')\<rparr>"

definition background :: Context where
  "background = \<lparr>Done_closed = False, Err = None\<rparr>"

definition upload :: "unit Request" where
  "upload = Request_File (NewRequest ''mutation { upload }'') ''file'' ''a.txt'' (Reader [1, 2, 3] None)"

text \<open>
  A transport that answers 503 to every call, with a given logger, and a world where
  nothing has happened.
\<close>

definition steady_503 :: "logger \<Rightarrow> unit retryableTransport" where
  "steady_503 lg =
     \<lparr>transport = always (reply 503), defaultWaitAfterTooManyRequests = 0, logger = lg\<rparr>"

definition quiet :: "unit world" where
  "quiet = \<lparr>net = (), trace = []\<rparr>"

text \<open>A transport every call of which, in every state, answers 503 without an error.\<close>

definition always_503 :: "'s retryableTransport \<Rightarrow> bool" where
  "always_503 t \<longleftrightarrow>
     (\<forall>s rq. out_err (fst (transport t s rq)) = None \<and>
        (\<exists>r. out_resp (fst (transport t s rq)) = Some r \<and> StatusCode r = 503))"

section \<open>Facts about the loop\<close>

lemma trace_emit [simp]: "trace (emit e w) = trace w @ [e]"
  by (simp add: emit_def)

lemma net_emit [simp]: "net (emit e w) = net w"
  by (simp add: emit_def)

lemma attempts_append [simp]: "attempts (xs @ ys) = attempts xs @ attempts ys"
  by (induction xs rule: attempts.induct) simp_all

lemma sleeps_append [simp]: "sleeps (xs @ ys) = sleeps xs @ sleeps ys"
  by (induction xs rule: sleeps.induct) simp_all

lemma timeline_append [simp]: "timeline (xs @ ys) = timeline xs @ timeline ys"
  by (induction xs rule: timeline.induct) simp_all

lemma shouldRetry_True:
  "shouldRetry t err resp = Inr (d, True) \<Longrightarrow> err = None \<and> (\<exists>r. resp = Some r)"
  by (auto simp: shouldRetry_def split: option.splits if_splits)

lemma retry_loop_exit:
  "\<not> retries < RetryCount \<Longrightarrow>
   retry_loop t bb req resp err retries w = (Inr (resp, err, retries), req, w)"
  by (subst retry_loop.simps) simp

lemma retry_loop_stop:
  "shouldRetry t err resp = Inr (d, False) \<Longrightarrow>
   retry_loop t bb req resp err retries w = (Inr (resp, err, retries), req, w)"
  by (subst retry_loop.simps) simp

lemma retry_loop_panic:
  "retries < RetryCount \<Longrightarrow> shouldRetry t err resp = Inl p \<Longrightarrow>
   retry_loop t bb req resp err retries w = (Inl p, req, w)"
  by (subst retry_loop.simps) simp

lemma retry_loop_nil_logger:
  "retries < RetryCount \<Longrightarrow> shouldRetry t err (Some r) = Inr (d, True) \<Longrightarrow>
   logger t = NilFunc \<Longrightarrow>
   retry_loop t bb req (Some r) err retries w = (Inl NilDereference, req, w)"
  by (subst retry_loop.simps) simp

lemma retry_loop_retry:
  "retries < RetryCount \<Longrightarrow> shouldRetry t err (Some r) = Inr (d, True) \<Longrightarrow>
   logger t \<noteq> NilFunc \<Longrightarrow>
   retry_loop t bb req (Some r) err retries w =
     (case send t (reclone bb req) (before_retry t r d w) of
        (resp', err', req2, w3) \<Rightarrow> retry_loop t bb req2 resp' err' (Suc retries) w3)"
  by (subst retry_loop.simps) (simp add: before_retry_def reclone_def)

lemma before_retry_net [simp]: "net (before_retry t r d w) = net w"
  by (simp add: before_retry_def drainBody_def)

lemma before_retry_trace:
  "\<exists>evs. trace (before_retry t r d w) = trace w @ evs \<and> attempts evs = [] \<and>
     sleeps evs = (if d > 0 then [d] else []) \<and>
     timeline evs = (if d > 0 then [Wait d] else [])"
  by (simp add: before_retry_def drainBody_def)


lemma send_ex:
  "\<exists>req' w'. send t req w =
       (out_resp (fst (transport t (net w) req)), out_err (fst (transport t (net w) req)), req', w') \<and>
     req' = req\<lparr>Body := map_option (consume (out_read (fst (transport t (net w) req)))) (Body req)\<rparr> \<and>
     trace w' = trace w @ [Attempt req (fst (transport t (net w) req))] \<and>
     net w' = snd (transport t (net w) req)"
  by (simp add: send_def split: prod.splits)

lemma RoundTrip_first_stop:
  assumes "shouldRetry t (out_err out) (out_resp out) = Inr (d, False)"
    and "out = fst (transport t (net w) (snd (cloneBody req)))"
  shows "\<exists>req' w'. RoundTrip t req w = (Inr (out_resp out, out_err out), req', w') \<and>
           trace w' = trace w @ [Attempt (snd (cloneBody req)) out]"
proof -
  obtain bb req0 where cb: "cloneBody req = (bb, req0)"
    by (cases "cloneBody req")
  have out: "out = fst (transport t (net w) req0)"
    using assms(2) cb by simp
  obtain req1 w1 where s: "send t req0 w = (out_resp out, out_err out, req1, w1)"
    and tr: "trace w1 = trace w @ [Attempt req0 out]"
    using send_ex [of t req0 w] out by auto
  have "retry_loop t bb req1 (out_resp out) (out_err out) 0 w1 =
          (Inr (out_resp out, out_err out, 0), req1, w1)"
    using assms(1) by (simp add: retry_loop_stop)
  then show ?thesis
    using cb s tr by (simp add: RoundTrip_def RetryCount_def split: option.splits)
qed


lemma shouldRetry_503:
  "StatusCode r = 503 \<Longrightarrow> shouldRetry t None (Some r) = Inr (250 * Millisecond, True)"
  by (simp add: shouldRetry_def)

lemma loop_503:
  assumes H: "always_503 t" and nl: "logger t \<noteq> NilFunc"
  shows "StatusCode r = 503 \<Longrightarrow> retries + k = RetryCount \<Longrightarrow>
    \<exists>r' req' w' evs. retry_loop t bb req (Some r) None retries w =
        (Inr (Some r', None, RetryCount), req', w') \<and> StatusCode r' = 503 \<and>
      trace w' = trace w @ evs \<and>
      length (attempts evs) = k \<and>
      sleeps evs = replicate k (250 * Millisecond) \<and>
      timeline evs = concat (replicate k [Wait (250 * Millisecond), Try])"
proof (induction k arbitrary: retries r req w)
  case 0
  then show ?case by (simp add: retry_loop_exit)
next
  case (Suc k)
  let ?d = "250 * Millisecond"
  let ?w0 = "before_retry t r ?d w"
  let ?rq = "reclone bb req"
  let ?out = "fst (transport t (net ?w0) ?rq)"
  have lt: "retries < RetryCount" using Suc.prems by simp
  have sr: "shouldRetry t None (Some r) = Inr (?d, True)"
    using Suc.prems by (simp add: shouldRetry_503)
  obtain r1 where e1: "out_err ?out = None" and r1: "out_resp ?out = Some r1"
    and c1: "StatusCode r1 = 503"
    using H unfolding always_503_def by blast
  obtain req1 w1 where s: "send t ?rq ?w0 = (Some r1, None, req1, w1)"
    and tr1: "trace w1 = trace ?w0 @ [Attempt ?rq ?out]"
    using send_ex [of t ?rq ?w0] e1 r1 by auto
  obtain evs0 where tr0: "trace ?w0 = trace w @ evs0" and a0: "attempts evs0 = []"
    and s0: "sleeps evs0 = [?d]" and t0: "timeline evs0 = [Wait ?d]"
    using before_retry_trace [of t r ?d w] by (auto simp: Millisecond_def)
  have step: "retry_loop t bb req (Some r) None retries w =
                retry_loop t bb req1 (Some r1) None (Suc retries) w1"
    using retry_loop_retry [OF lt sr nl] s by simp
  from Suc.IH [OF c1, of "Suc retries" req1 w1] Suc.prems
  obtain r' req' w' evs where
    L: "retry_loop t bb req1 (Some r1) None (Suc retries) w1 =
          (Inr (Some r', None, RetryCount), req', w')"
    and c': "StatusCode r' = 503" and tr': "trace w' = trace w1 @ evs"
    and a': "length (attempts evs) = k" and s': "sleeps evs = replicate k ?d"
    and t': "timeline evs = concat (replicate k [Wait ?d, Try])"
    by auto
  let ?evs = "evs0 @ Attempt ?rq ?out # evs"
  have "trace w' = trace w @ ?evs" using tr' tr1 tr0 by simp
  moreover have "length (attempts ?evs) = Suc k" using a0 a' by simp
  moreover have "sleeps ?evs = replicate (Suc k) ?d" using s0 s' by simp
  moreover have "timeline ?evs = concat (replicate (Suc k) [Wait ?d, Try])"
    using t0 t' by simp
  ultimately show ?case using step L c'
    by (intro exI [where x = r'] exI [where x = req'] exI [where x = w'] exI [where x = ?evs])
      simp
qed

lemma clone_post: "cloneBody (post bs) = (bs, post bs)"
  by (simp add: cloneBody_def post_def ReadAll_def NewBuffer_def)

lemma scripted_step:
  "transport scripted_transport (out # rest) (post bs) = (out\<lparr>out_read := length bs\<rparr>, rest)"
  by (simp add: scripted_transport_def scripted_def post_def)

lemma shouldRetry_cases:
  obtains (panic) p where "shouldRetry t err resp = Inl p"
  | (stop) d where "shouldRetry t err resp = Inr (d, False)"
  | (retry) d r where "shouldRetry t err resp = Inr (d, True)" and "resp = Some r"
proof (cases "shouldRetry t err resp")
  case (Inl p)
  then show ?thesis by (rule panic)
next
  case (Inr x)
  then obtain d b where x: "shouldRetry t err resp = Inr (d, b)"
    by (cases x) simp
  show ?thesis
  proof (cases b)
    case True
    with x have y: "shouldRetry t err resp = Inr (d, True)" by simp
    from shouldRetry_True [OF y] obtain r where "resp = Some r" by blast
    with y show ?thesis by (rule retry)
  next
    case False
    with x have "shouldRetry t err resp = Inr (d, False)" by simp
    then show ?thesis by (rule stop)
  qed
qed

lemma loop_exit_state:
  "retries + k = RetryCount \<Longrightarrow>
   retry_loop t bb req resp err retries w = (res, req', w') \<Longrightarrow>
   \<exists>evs. trace w' = trace w @ evs \<and>
     (case res of
        Inl p \<Rightarrow> length (attempts evs) < k
      | Inr (resp', err', n') \<Rightarrow>
          n' = retries + length (attempts evs) \<and> n' \<le> RetryCount \<and>
          (resp', err') = last_outcome (resp, err) (attempts evs))"
proof (induction k arbitrary: retries req resp err w)
  case 0
  then show ?case by (auto simp: retry_loop_exit last_outcome_def)
next
  case (Suc k)
  have lt: "retries < RetryCount" using Suc.prems by simp
  show ?case
  proof (cases t err resp rule: shouldRetry_cases)
    case (panic p)
    with Suc.prems lt show ?thesis
      by (auto simp: retry_loop_panic)
  next
    case (stop d)
    with Suc.prems show ?thesis
      by (auto simp: retry_loop_stop last_outcome_def)
  next
    case (retry d r)
    show ?thesis
    proof (cases "logger t = NilFunc")
      case True
      with Suc.prems lt retry show ?thesis
        by (auto simp: retry_loop_nil_logger)
    next
      case nl: False
    let ?w0 = "before_retry t r d w"
    let ?rq = "reclone bb req"
    let ?out = "fst (transport t (net ?w0) ?rq)"
    obtain req1 w1 where s: "send t ?rq ?w0 = (out_resp ?out, out_err ?out, req1, w1)"
      and tr1: "trace w1 = trace ?w0 @ [Attempt ?rq ?out]"
      using send_ex [of t ?rq ?w0] by auto
    obtain evs0 where tr0: "trace ?w0 = trace w @ evs0" and a0: "attempts evs0 = []"
      using before_retry_trace [of t r d w] by auto
    have step: "retry_loop t bb req1 (out_resp ?out) (out_err ?out) (Suc retries) w1 = (res, req', w')"
      using retry_loop_retry [OF lt _ nl, of err r d bb req w] retry s Suc.prems(2) by simp
    from Suc.IH [OF _ step] Suc.prems(1)
    obtain evs where tr': "trace w' = trace w1 @ evs"
      and R: "case res of
                Inl p \<Rightarrow> length (attempts evs) < k
              | Inr (resp', err', n') \<Rightarrow>
                  n' = Suc retries + length (attempts evs) \<and> n' \<le> RetryCount \<and>
                  (resp', err') = last_outcome (out_resp ?out, out_err ?out) (attempts evs)"
      by auto
    let ?evs = "evs0 @ Attempt ?rq ?out # evs"
    have T: "trace w' = trace w @ ?evs" using tr' tr1 tr0 by simp
    have A: "attempts ?evs = (?rq, ?out) # attempts evs" using a0 by simp
    have "case res of
            Inl p \<Rightarrow> length (attempts ?evs) < Suc k
          | Inr (resp', err', n') \<Rightarrow>
              n' = retries + length (attempts ?evs) \<and> n' \<le> RetryCount \<and>
              (resp', err') = last_outcome (resp, err) (attempts ?evs)"
      using R unfolding A by (auto simp: last_outcome_def split: sum.splits)
    with T show ?thesis by blast
    qed
  qed
qed

lemma RoundTrip_unfold:
  assumes "cloneBody req = (bb, req0)"
    and "send t req0 w = (resp, err, req1, w1)"
    and "retry_loop t bb req1 resp err 0 w1 = (res, req2, w2)"
  shows "RoundTrip t req w =
    (case res of
       Inl p \<Rightarrow> (Inl p, req2, w2)
     | Inr (resp', err', retries) \<Rightarrow>
         if retries \<ge> RetryCount then
           (case err' of
              Some e \<Rightarrow> (Inr (resp', Some (ErrorsNew (''retry limit reached (err='' @ Error e @ '')''))), req2, w2)
            | None \<Rightarrow> (Inr (resp', Some (ErrorsNew ''retry limit reached'')), req2, w2))
         else (Inr (resp', err'), req2, w2))"
  using assms by (simp add: RoundTrip_def split: sum.splits)

lemma exhausted_message_Some: "sublist (Error e) (exhausted_message (Some e))"
  unfolding exhausted_message_def option.case by (rule sublist_appendI)

lemma scripted_send:
  "send scripted_transport (post bs) \<lparr>net = out # rest, trace = tr\<rparr> =
     (out_resp out, out_err out, (post bs)\<lparr>Body := Some (Reader [] None)\<rparr>,
      \<lparr>net = rest, trace = tr @ [Attempt (post bs) (out\<lparr>out_read := length bs\<rparr>)]\<rparr>)"
  by (simp add: send_def scripted_transport_def scripted_def post_def consume_def emit_def)

lemma reclone_post: "reclone bs ((post bs)\<lparr>Body := Some rd\<rparr>) = post bs"
  by (simp add: reclone_def post_def NewBuffer_def)

lemma before_retry_scripted:
  "before_retry scripted_transport r d \<lparr>net = s, trace = tr\<rparr> =
     \<lparr>net = s, trace = tr @
        (if d > 0 then [Logged NoLog (RetryingAfter (StatusCode r) d), Sleep d]
         else [Logged NoLog (RetryingNow (StatusCode r))]) @
        (if RespBody r \<noteq> None then [Drained r] else [])\<rparr>"
  by (simp add: before_retry_def drainBody_def emit_def scripted_transport_def)

lemma scripted_retry:
  assumes "retries < RetryCount"
    and "shouldRetry scripted_transport err (Some r) = Inr (d, True)"
  shows "retry_loop scripted_transport bs ((post bs)\<lparr>Body := Some rd\<rparr>) (Some r) err retries
           \<lparr>net = out # rest, trace = tr\<rparr> =
         retry_loop scripted_transport bs ((post bs)\<lparr>Body := Some (Reader [] None)\<rparr>)
           (out_resp out) (out_err out) (Suc retries)
           \<lparr>net = rest, trace = (tr @
              (if d > 0 then [Logged NoLog (RetryingAfter (StatusCode r) d), Sleep d]
               else [Logged NoLog (RetryingNow (StatusCode r))]) @
              (if RespBody r \<noteq> None then [Drained r] else [])) @
              [Attempt (post bs) (out\<lparr>out_read := length bs\<rparr>)]\<rparr>"
proof -
  have "logger scripted_transport \<noteq> NilFunc"
    by (simp add: scripted_transport_def)
  from retry_loop_retry [OF assms this] show ?thesis
    by (simp add: reclone_post before_retry_scripted scripted_send)
qed

lemma RoundTrip_scripted:
  "RoundTrip scripted_transport (post bs) (playing (out # rest)) =
     (case retry_loop scripted_transport bs ((post bs)\<lparr>Body := Some (Reader [] None)\<rparr>)
             (out_resp out) (out_err out) 0
             \<lparr>net = rest, trace = [Attempt (post bs) (out\<lparr>out_read := length bs\<rparr>)]\<rparr> of
        (Inl p, req2, w2) \<Rightarrow> (Inl p, req2, w2)
      | (Inr (resp, err, retries), req2, w2) \<Rightarrow>
          if retries \<ge> RetryCount then
            (case err of
               Some e \<Rightarrow>
                 (Inr (resp, Some (ErrorsNew (''retry limit reached (err='' @ Error e @ '')''))),
                  req2, w2)
             | None \<Rightarrow> (Inr (resp, Some (ErrorsNew ''retry limit reached'')), req2, w2))
          else (Inr (resp, err), req2, w2))"
  by (simp add: RoundTrip_def clone_post playing_def scripted_send)

lemma five_503_then:
  "RoundTrip scripted_transport (post bs)
     (playing [reply 503, reply 503, reply 503, reply 503, reply 503, out]) =
   (Inr (out_resp out, Some (ErrorsNew (exhausted_message (out_err out)))),
    (post bs)\<lparr>Body := Some (Reader [] None)\<rparr>,
    \<lparr>net = [],
     trace = round_503 bs @ round_503 bs @ round_503 bs @ round_503 bs @ round_503 bs @
             [Attempt (post bs) (out\<lparr>out_read := length bs\<rparr>)]\<rparr>)"
  apply (simp add: RoundTrip_scripted)
  apply (simp add: reply_def)
  apply (simp add: scripted_retry shouldRetry_def RetryCount_def Millisecond_def)
  apply (simp add: retry_loop_exit RetryCount_def)
  apply (simp add: round_503_def reply_def Millisecond_def exhausted_message_def split: option.splits)
  done

lemma attempts_round_503:
  "attempts (round_503 bs) = [(post bs, reply 503\<lparr>out_read := length bs\<rparr>)]"
  by (simp add: round_503_def)

lemma loop_bodies:
  "retries + k = RetryCount \<Longrightarrow>
   retry_loop t bb req resp err retries w = (res, req', w') \<Longrightarrow>
   \<exists>evs. trace w' = trace w @ evs \<and>
     (\<forall>c \<in> set (attempts evs). Body (fst c) = map_option (\<lambda>_. NewBuffer bb) (Body req))"
proof (induction k arbitrary: retries req resp err w)
  case 0
  then show ?case by (auto simp: retry_loop_exit)
next
  case (Suc k)
  have lt: "retries < RetryCount" using Suc.prems by simp
  show ?case
  proof (cases t err resp rule: shouldRetry_cases)
    case (panic p)
    with Suc.prems lt show ?thesis
      by (auto simp: retry_loop_panic)
  next
    case (stop d)
    with Suc.prems show ?thesis
      by (auto simp: retry_loop_stop)
  next
    case (retry d r)
    show ?thesis
    proof (cases "logger t = NilFunc")
      case True
      with Suc.prems lt retry show ?thesis
        by (auto simp: retry_loop_nil_logger)
    next
      case nl: False
    let ?w0 = "before_retry t r d w"
    let ?rq = "reclone bb req"
    let ?out = "fst (transport t (net ?w0) ?rq)"
    obtain req1 w1 where s: "send t ?rq ?w0 = (out_resp ?out, out_err ?out, req1, w1)"
      and rq1: "req1 = ?rq\<lparr>Body := map_option (consume (out_read ?out)) (Body ?rq)\<rparr>"
      and tr1: "trace w1 = trace ?w0 @ [Attempt ?rq ?out]"
      using send_ex [of t ?rq ?w0] by auto
    obtain evs0 where tr0: "trace ?w0 = trace w @ evs0" and a0: "attempts evs0 = []"
      using before_retry_trace [of t r d w] by auto
    have step: "retry_loop t bb req1 (out_resp ?out) (out_err ?out) (Suc retries) w1 = (res, req', w')"
      using retry_loop_retry [OF lt _ nl, of err r d bb req w] retry s Suc.prems(2) by simp
    have B: "Body ?rq = map_option (\<lambda>_. NewBuffer bb) (Body req)"
      by (cases "Body req") (simp_all add: reclone_def)
    have B1: "map_option (\<lambda>_. NewBuffer bb) (Body req1) = map_option (\<lambda>_. NewBuffer bb) (Body req)"
      using rq1 B by (cases "Body req") simp_all
    from Suc.IH [OF _ step] Suc.prems(1)
    obtain evs where tr': "trace w' = trace w1 @ evs"
      and R: "\<forall>c \<in> set (attempts evs). Body (fst c) = map_option (\<lambda>_. NewBuffer bb) (Body req1)"
      by auto
    let ?evs = "evs0 @ Attempt ?rq ?out # evs"
    have T: "trace w' = trace w @ ?evs" using tr' tr1 tr0 by simp
    have "\<forall>c \<in> set (attempts ?evs). Body (fst c) = map_option (\<lambda>_. NewBuffer bb) (Body req)"
      using R a0 B B1 by simp
    with T show ?thesis by blast
    qed
  qed
qed

lemma one_503_then_200:
  "RoundTrip scripted_transport (post bs) (playing [reply 503, reply 200]) =
   (Inr (out_resp (reply 200), None),
    (post bs)\<lparr>Body := Some (Reader [] None)\<rparr>,
    \<lparr>net = [],
     trace = round_503 bs @ [Attempt (post bs) (reply 200\<lparr>out_read := length bs\<rparr>)]\<rparr>)"
  apply (simp add: RoundTrip_scripted)
  apply (simp add: reply_def)
  apply (simp add: scripted_retry shouldRetry_def RetryCount_def Millisecond_def)
  apply (simp add: retry_loop_stop [where d = 0] shouldRetry_def RetryCount_def)
  apply (simp add: round_503_def reply_def Millisecond_def)
  done

lemma bodiless_200:
  "\<exists>req'. RoundTrip scripted_transport bodiless (playing [reply 200]) =
     (Inr (out_resp (reply 200), None), req',
      \<lparr>net = [], trace = [Attempt bodiless (reply 200)]\<rparr>)"
proof -
  have c: "cloneBody bodiless = ([], bodiless)"
    by (simp add: cloneBody_def bodiless_def)
  have o: "transport scripted_transport [reply 200] bodiless = (reply 200, [])"
    by (simp add: scripted_transport_def scripted_def bodiless_def reply_def)
  have "send scripted_transport bodiless (playing [reply 200]) =
          (out_resp (reply 200), out_err (reply 200), bodiless,
           \<lparr>net = [], trace = [Attempt bodiless (reply 200)]\<rparr>)"
    by (simp add: send_def playing_def o emit_def) (simp add: bodiless_def)
  moreover have "shouldRetry scripted_transport (out_err (reply 200)) (out_resp (reply 200)) = Inr (0, False)"
    by (simp add: shouldRetry_def reply_def)
  ultimately show ?thesis
    by (simp add: RoundTrip_def c retry_loop_stop [where d = 0] RetryCount_def reply_def)
qed

lemma map_all_same: "\<forall>c \<in> set xs. f c = v \<Longrightarrow> map f xs = replicate (length xs) v"
  by (induction xs) simp_all

lemma RoundTrip_always_503:
  assumes "always_503 t" and "logger t \<noteq> NilFunc"
  shows "\<exists>r' req' w' evs.
      RoundTrip t req w = (Inr (Some r', Some (ErrorsNew ''retry limit reached'')), req', w') \<and>
      StatusCode r' = 503 \<and>
      trace w' = trace w @ evs \<and>
      length (attempts evs) = RetryCount + 1 \<and>
      sleeps evs = replicate RetryCount (250 * Millisecond) \<and>
      timeline evs = Try # concat (replicate RetryCount [Wait (250 * Millisecond), Try])"
proof -
  obtain bb req0 where cb: "cloneBody req = (bb, req0)"
    by (cases "cloneBody req")
  let ?out = "fst (transport t (net w) req0)"
  obtain r1 where e1: "out_err ?out = None" and r1: "out_resp ?out = Some r1"
    and c1: "StatusCode r1 = 503"
    using assms(1) unfolding always_503_def by blast
  obtain req1 w1 where s: "send t req0 w = (Some r1, None, req1, w1)"
    and tr1: "trace w1 = trace w @ [Attempt req0 ?out]"
    using send_ex [of t req0 w] e1 r1 by auto
  from loop_503 [OF assms c1, of 0 RetryCount bb req1 w1]
  obtain r' req' w' evs where
    L: "retry_loop t bb req1 (Some r1) None 0 w1 = (Inr (Some r', None, RetryCount), req', w')"
    and c': "StatusCode r' = 503" and tr': "trace w' = trace w1 @ evs"
    and a': "length (attempts evs) = RetryCount"
    and s': "sleeps evs = replicate RetryCount (250 * Millisecond)"
    and t': "timeline evs = concat (replicate RetryCount [Wait (250 * Millisecond), Try])"
    by auto
  let ?evs = "Attempt req0 ?out # evs"
  have R: "RoundTrip t req w =
             (Inr (Some r', Some (ErrorsNew ''retry limit reached'')), req', w')"
    using cb s L by (simp add: RoundTrip_def)
  have "trace w' = trace w @ ?evs" using tr' tr1 by simp
  moreover have "length (attempts ?evs) = RetryCount + 1" using a' by simp
  moreover have "sleeps ?evs = replicate RetryCount (250 * Millisecond)" using s' by simp
  moreover have "timeline ?evs = Try # concat (replicate RetryCount [Wait (250 * Millisecond), Try])"
    using t' by simp
  ultimately show ?thesis using R c'
    by (intro exI [where x = r'] exI [where x = req'] exI [where x = w'] exI [where x = ?evs])
      simp
qed

lemma RoundTrip_always_503_nil_logger:
  assumes "always_503 t" and "logger t = NilFunc"
  shows "\<exists>req' w'. RoundTrip t req w = (Inl NilDereference, req', w') \<and>
      trace w' = trace w @ [Attempt (snd (cloneBody req)) (fst (transport t (net w) (snd (cloneBody req))))]"
proof -
  obtain bb req0 where cb: "cloneBody req = (bb, req0)"
    by (cases "cloneBody req")
  let ?out = "fst (transport t (net w) req0)"
  obtain r1 where e1: "out_err ?out = None" and r1: "out_resp ?out = Some r1"
    and c1: "StatusCode r1 = 503"
    using assms(1) unfolding always_503_def by blast
  obtain req1 w1 where s: "send t req0 w = (Some r1, None, req1, w1)"
    and tr1: "trace w1 = trace w @ [Attempt req0 ?out]"
    using send_ex [of t req0 w] e1 r1 by auto
  have "retry_loop t bb req1 (Some r1) None 0 w1 = (Inl NilDereference, req1, w1)"
    using shouldRetry_503 [OF c1, of t] assms(2)
    by (intro retry_loop_nil_logger) (simp_all add: RetryCount_def)
  then show ?thesis
    using cb s tr1 by (simp add: RoundTrip_def)
qed

lemma always_503_steady: "always_503 (steady_503 lg)"
  by (simp add: always_503_def steady_503_def always_def reply_def)

section \<open>Facts about strconv.Atoi\<close>

lemma decimal_from_Cons [simp]:
  "decimal_from n (c # cs) = decimal_from (n * 10 + digit_val c) cs"
  by (simp add: decimal_from_def)

lemma decimal_from_Nil [simp]: "decimal_from n [] = n"
  by (simp add: decimal_from_def)

lemma digit_val_range: "is_digit c \<Longrightarrow> 0 \<le> digit_val c \<and> digit_val c \<le> 9"
  by (simp add: is_digit_def digit_val_def)

lemma is_digit_not_sign: "is_digit c \<Longrightarrow> c \<noteq> CHR ''-'' \<and> c \<noteq> CHR ''+''"
  by (auto simp: is_digit_def)

lemma decimal_from_ge: "list_all is_digit ds \<Longrightarrow> 0 \<le> n \<Longrightarrow> n \<le> decimal_from n ds"
proof (induction ds arbitrary: n)
  case Nil
  then show ?case by simp
next
  case (Cons c cs)
  have d: "0 \<le> digit_val c" using Cons.prems digit_val_range by simp
  have "n \<le> n * 10 + digit_val c" using d Cons.prems(2) by simp
  also have "\<dots> \<le> decimal_from (n * 10 + digit_val c) cs"
    using Cons.IH [of "n * 10 + digit_val c"] Cons.prems d by simp
  finally show ?case by simp
qed

lemma Atoi_fast_digits:
  "list_all is_digit ds \<Longrightarrow> Atoi_fast n ds = Some (decimal_from n ds)"
  by (induction ds arbitrary: n) simp_all

lemma Atoi_fast_None:
  "\<not> list_all is_digit ds \<Longrightarrow> Atoi_fast n ds = None"
  by (induction ds arbitrary: n) simp_all

lemma ParseUint_loop_digits:
  "list_all is_digit ds \<Longrightarrow> 0 \<le> n \<Longrightarrow> decimal_from n ds \<le> maxUint64 \<Longrightarrow>
   ParseUint_loop n ds = (decimal_from n ds, None)"
proof (induction ds arbitrary: n)
  case Nil
  then show ?case by simp
next
  case (Cons c cs)
  let ?m = "n * 10 + digit_val c"
  have d: "0 \<le> digit_val c" and c: "is_digit c" and cs: "list_all is_digit cs"
    using Cons.prems digit_val_range by simp_all
  have m0: "0 \<le> ?m" using d Cons.prems(2) by simp
  have "?m \<le> decimal_from ?m cs" using decimal_from_ge [OF cs m0] .
  then have m: "?m \<le> maxUint64" using Cons.prems(3) by simp
  then have n: "\<not> n \<ge> maxUint64 div 10 + 1" using d by (simp add: maxUint64_def)
  show ?case
    using Cons.IH [OF cs m0] Cons.prems(3) c m n by simp
qed

lemma ParseUint_loop_syntax:
  "\<not> list_all is_digit (take k ds) \<Longrightarrow> 0 \<le> n \<Longrightarrow> n < 10 ^ j \<Longrightarrow> j + k = 19 \<Longrightarrow>
   ParseUint_loop n ds = (0, Some ErrSyntax)"
proof (induction ds arbitrary: n j k)
  case Nil
  then show ?case by simp
next
  case (Cons c cs)
  show ?case
  proof (cases "is_digit c")
    case False
    then show ?thesis by simp
  next
    case True
    then obtain k' where k: "k = Suc k'" and rest: "\<not> list_all is_digit (take k' cs)"
      using Cons.prems(1) by (cases k) simp_all
    let ?m = "n * 10 + digit_val c"
    have d: "0 \<le> digit_val c" "digit_val c \<le> 9" using True digit_val_range by simp_all
    have j: "j \<le> 18" using Cons.prems(4) k by simp
    have "(10::int) ^ j \<le> 10 ^ 18" using j by (intro power_increasing) simp_all
    then have n18: "n < 10 ^ 18" using Cons.prems(3) by simp
    have m0: "0 \<le> ?m" using d Cons.prems(2) by simp
    have "n + 1 \<le> 10 ^ j" using Cons.prems(3) by simp
    then have "?m < 10 ^ Suc j" using d by simp
    moreover have "Suc j + k' = 19" using Cons.prems(4) k by simp
    ultimately have IH: "ParseUint_loop ?m cs = (0, Some ErrSyntax)"
      using Cons.IH [OF rest m0] by blast
    have "\<not> n \<ge> maxUint64 div 10 + 1" using n18 by (simp add: maxUint64_def)
    moreover have "\<not> ?m > maxUint64" using n18 d by (simp add: maxUint64_def)
    ultimately show ?thesis using True IH by simp
  qed
qed

lemma Atoi_numeral_string:
  assumes "numeral_string ds" and "decimal ds < 2 ^ 63"
  shows "Atoi ds = (decimal ds, None)"
proof -
  from assms(1) obtain c cs where ds: "ds = c # cs" and c: "is_digit c"
    and all: "list_all is_digit ds"
    by (cases ds) (auto simp: numeral_string_def)
  have sign: "hd ds \<noteq> CHR ''-''" "hd ds \<noteq> CHR ''+''"
    using ds c is_digit_not_sign by auto
  show ?thesis
  proof (cases "length ds < 19")
    case True
    then show ?thesis
      using sign all ds by (simp add: Atoi_def Atoi_fast_digits decimal_def del: Atoi_fast.simps)
  next
    case False
    have le: "decimal_from 0 ds \<le> maxUint64"
      using assms(2) by (simp add: decimal_def maxUint64_def)
    have "ParseUint ds = (decimal ds, None)"
      using ParseUint_loop_digits [OF all _ le] ds by (simp add: ParseUint_def decimal_def)
    moreover have "0 \<le> decimal ds"
      using decimal_from_ge [OF all, of 0] by (simp add: decimal_def)
    ultimately have "ParseInt ds = (decimal ds, None)"
      using sign assms(2) ds by (simp add: ParseInt_def)
    then show ?thesis using False by (simp add: Atoi_def)
  qed
qed

lemma Atoi_malformed:
  assumes "malformed s"
  shows "fst (Atoi s) = 0"
proof (cases "s = []")
  case True
  then show ?thesis by (simp add: Atoi_def ParseInt_def)
next
  case False
  let ?u = "if hd s = CHR ''-'' \<or> hd s = CHR ''+'' then tl s else s"
  have u: "unsigned_part s = ?u" using False by (auto simp: unsigned_part_def)
  show ?thesis
  proof (cases "length s < 19")
    case True
    then have "length ?u < 19" by (cases s) auto
    then have "?u = [] \<or> \<not> list_all is_digit ?u"
      using assms u by (simp add: malformed_def)
    then show ?thesis
      using True False by (auto simp: Atoi_def Let_def Atoi_fast_None)
  next
    case long: False
    have "ParseUint ?u = (0, Some ErrSyntax)"
    proof (cases "?u = []")
      case True
      then show ?thesis by (simp add: ParseUint_def)
    next
      case False
      then have "\<not> list_all is_digit (take 19 ?u)"
        using assms u by (simp add: malformed_def)
      from ParseUint_loop_syntax [OF this, of 0 0] False show ?thesis
        by (simp add: ParseUint_def)
    qed
    moreover have "(if hd s = CHR ''+'' \<or> hd s = CHR ''-'' then tl s else s) = ?u"
      by auto
    ultimately have "fst (ParseInt s) = 0"
      using False unfolding ParseInt_def Let_def by (simp del: ParseUint_loop.simps)
    then show ?thesis using long False by (simp add: Atoi_def)
  qed
qed

lemma decimal_from_bound:
  "list_all is_digit ds \<Longrightarrow> 0 \<le> n \<Longrightarrow> decimal_from n ds < (n + 1) * 10 ^ length ds"
proof (induction ds arbitrary: n)
  case Nil
  then show ?case by simp
next
  case (Cons c cs)
  have d: "0 \<le> digit_val c" "digit_val c \<le> 9" using Cons.prems digit_val_range by simp_all
  have "decimal_from (n * 10 + digit_val c) cs < (n * 10 + digit_val c + 1) * 10 ^ length cs"
    using Cons.IH [of "n * 10 + digit_val c"] Cons.prems d by simp
  also have "\<dots> \<le> ((n + 1) * 10) * 10 ^ length cs"
    using d by (intro mult_right_mono) simp_all
  finally show ?case by (simp add: algebra_simps)
qed

lemma decimal_short:
  assumes "list_all is_digit ds" and "length ds < 19"
  shows "decimal ds < 2 ^ 63"
proof -
  have "decimal ds < 10 ^ length ds"
    using decimal_from_bound [OF assms(1), of 0] by (simp add: decimal_def)
  also have "(10::int) ^ length ds \<le> 10 ^ 18"
    using assms(2) by (intro power_increasing) simp_all
  finally show ?thesis by simp
qed

lemma ParseUint_loop_all_digits:
  "list_all is_digit ds \<Longrightarrow> 0 \<le> n \<Longrightarrow> n \<le> maxUint64 \<Longrightarrow>
   ParseUint_loop n ds =
     (if decimal_from n ds \<le> maxUint64 then (decimal_from n ds, None)
      else (maxUint64, Some ErrRange))"
proof (induction ds arbitrary: n)
  case Nil
  then show ?case by simp
next
  case (Cons c cs)
  let ?m = "n * 10 + digit_val c"
  have d: "0 \<le> digit_val c" and c: "is_digit c" and cs: "list_all is_digit cs"
    using Cons.prems digit_val_range by simp_all
  have m0: "0 \<le> ?m" using d Cons.prems(2) by simp
  have ge: "?m \<le> decimal_from ?m cs" using decimal_from_ge [OF cs m0] .
  show ?case
  proof (cases "n \<ge> maxUint64 div 10 + 1 \<or> ?m > maxUint64")
    case True
    then have "?m > maxUint64" using d by (auto simp: maxUint64_def)
    then have "\<not> decimal_from ?m cs \<le> maxUint64" using ge by simp
    with True c show ?thesis by auto
  next
    case False
    then have "?m \<le> maxUint64" by simp
    from Cons.IH [OF cs m0 this] False c show ?thesis by simp
  qed
qed

lemma ParseUint_numeral_string:
  assumes "numeral_string ds"
  shows "ParseUint ds =
     (if decimal ds \<le> maxUint64 then (decimal ds, None) else (maxUint64, Some ErrRange))"
  using assms ParseUint_loop_all_digits [of ds 0]
  by (simp add: numeral_string_def ParseUint_def decimal_def maxUint64_def)

lemma decimal_nonneg: "list_all is_digit ds \<Longrightarrow> 0 \<le> decimal ds"
  using decimal_from_ge [of ds 0] by (simp add: decimal_def)

lemma ParseInt_signed:
  assumes "signed_numeral s"
  shows "fst (ParseInt s) = saturate64 (signed_value s)"
proof -
  let ?u = "unsigned_part s"
  have ne: "s \<noteq> []" using assms by (auto simp: signed_numeral_def numeral_string_def unsigned_part_def)
  have u: "(if hd s = CHR ''+'' \<or> hd s = CHR ''-'' then tl s else s) = ?u"
    using ne by (simp add: unsigned_part_def)
  have ns: "numeral_string ?u" using assms by (simp add: signed_numeral_def)
  have nn: "0 \<le> decimal ?u" using ns decimal_nonneg by (simp add: numeral_string_def)
  note P = ParseUint_numeral_string [OF ns]
  show ?thesis
  proof (cases "decimal ?u \<le> maxUint64")
    case True
    then have "ParseUint ?u = (decimal ?u, None)" using P by simp
    then show ?thesis
      using ne nn unfolding ParseInt_def Let_def u
      by (simp add: signed_value_def saturate64_def)
  next
    case False
    then have "ParseUint ?u = (maxUint64, Some ErrRange)" using P by simp
    then show ?thesis
      using ne False unfolding ParseInt_def Let_def u
      by (simp add: signed_value_def saturate64_def maxUint64_def)
  qed
qed

lemma Atoi_signed:
  assumes "signed_numeral s"
  shows "fst (Atoi s) = saturate64 (signed_value s)"
proof (cases "0 < length s \<and> length s < 19")
  case False
  then have "Atoi s = ParseInt s" by (auto simp: Atoi_def)
  then show ?thesis using ParseInt_signed [OF assms] by simp
next
  case True
  let ?u = "unsigned_part s"
  have ne: "s \<noteq> []" using True by auto
  have u: "(if hd s = CHR ''-'' \<or> hd s = CHR ''+'' then tl s else s) = ?u"
    using ne by (auto simp: unsigned_part_def)
  have ns: "numeral_string ?u" using assms by (simp add: signed_numeral_def)
  then have all: "list_all is_digit ?u" and une: "?u \<noteq> []"
    by (simp_all add: numeral_string_def)
  have "length ?u < 19" using True ne by (cases s) (auto simp: unsigned_part_def)
  from decimal_short [OF all this] have small: "decimal ?u < 2 ^ 63" .
  have nn: "0 \<le> decimal ?u" using all by (rule decimal_nonneg)
  have "fst (Atoi s) = signed_value s"
    using True une unfolding Atoi_def Let_def u
    by (simp add: Atoi_fast_digits [OF all] signed_value_def decimal_def ne)
  moreover have "saturate64 (signed_value s) = signed_value s"
    using small nn by (simp add: signed_value_def saturate64_def)
  ultimately show ?thesis by simp
qed

lemma wrap64_id: "- (2 ^ 63) \<le> x \<Longrightarrow> x < 2 ^ 63 \<Longrightarrow> wrap64 x = x"
  by (simp add: wrap64_def)

lemma shouldRetry_429:
  "StatusCode r = 429 \<Longrightarrow>
   shouldRetry t None (Some r) =
     Inr (if fst (Atoi (Header_Get (RespHeader r) ''Retry-After'')) = 0
          then defaultWaitAfterTooManyRequests t
          else wrap64 (fst (Atoi (Header_Get (RespHeader r) ''Retry-After'')) * Second), True)"
  by (simp add: shouldRetry_def Let_def)

section \<open>Facts about the events of a run\<close>

lemma http_calls_append [simp]: "http_calls (xs @ ys) = http_calls xs @ http_calls ys"
  by (induction xs rule: http_calls.induct) simp_all

lemma retry_events_append [simp]: "retry_events (xs @ ys) = retry_events xs @ retry_events ys"
  by (induction xs rule: retry_events.induct) simp_all

lemma retry_events_map_Transport [simp]: "retry_events (map Transport es) = es"
  by (induction es) simp_all

lemma http_calls_map_Transport [simp]: "http_calls (map Transport es) = []"
  by (induction es) simp_all

lemma events_observe [simp]: "events (observe e w) = events w @ [e]"
  by (simp add: observe_def)

lemma outside_observe [simp]: "outside (observe e w) = outside w"
  by (simp add: observe_def)




lemma plain_step_none:
  "http_calls (events w') = http_calls (events w) \<Longrightarrow>
   retry_events (events w') = retry_events (events w) \<Longrightarrow> plain_step i w w'"
  by (simp add: plain_step_def)


lemma plain_step_before:
  "plain_step i w w' \<Longrightarrow> http_calls (events w) = http_calls (events w0) \<Longrightarrow>
   retry_events (events w) = retry_events (events w0) \<Longrightarrow> plain_step i w0 w'"
  by (simp add: plain_step_def)




lemma plain_step_refl_log [simp]:
  "plain_step i w (observe (Log lg m) w') = plain_step i w w'"
  "plain_step i w (observe Encoding w') = plain_step i w w'"
  "plain_step i w (observe (Decoding bs) w') = plain_step i w w'"
  "plain_step i (observe (Log lg m) w) w' = plain_step i w w'"
  "plain_step i (observe Encoding w) w' = plain_step i w w'"
  "plain_step i (observe (Decoding bs) w) w' = plain_step i w w'"
  by (simp_all add: plain_step_def)

lemma plain_step_same [simp]: "plain_step i w w"
  by (simp add: plain_step_def)











section \<open>The retry loop: first attempt and exhaustion\<close>

text \<open>
  Claim C4. An attempt that fails with a transport-level error is never retried: the
  decision function answers "do not retry" whenever the error is set. When the first
  attempt fails so, \<open>RoundTrip\<close> returns that very error, and the only thing that
  happened is that one attempt: no wait, no log line, no second attempt.
\<close>

theorem RoundTrip_transport_error_returned:
  assumes "out = fst (transport t (net w) (snd (cloneBody req)))"
    and "out_err out = Some e"
  shows "shouldRetry t (Some e) resp = Inr (0, False) \<and>
         (\<exists>req' w'. RoundTrip t req w = (Inr (out_resp out, Some e), req', w') \<and>
            trace w' = trace w @ [Attempt (snd (cloneBody req)) out])"
proof -
  have sr: "shouldRetry t (out_err out) (out_resp out) = Inr (0, False)"
    using assms(2) by (simp add: shouldRetry_def)
  have "shouldRetry t (Some e) resp = Inr (0, False)"
    by (simp add: shouldRetry_def)
  with RoundTrip_first_stop [OF sr assms(1)] assms(2) show ?thesis
    by simp
qed

theorem RoundTrip_transport_error_returned_witness:
  "out_err (fst (transport scripted_transport (net (playing [refuse ''connection refused'']))
       (snd (cloneBody (post [1, 2, 3]))))) = Some (Foreign ''connection refused'') \<and>
   shouldRetry scripted_transport (Some (Foreign ''connection refused'')) None = Inr (0, False) \<and>
   (\<exists>req' w'. RoundTrip scripted_transport (post [1, 2, 3]) (playing [refuse ''connection refused'']) =
        (Inr (None, Some (Foreign ''connection refused'')), req', w') \<and>
      trace w' = [Attempt (post [1, 2, 3]) (refuse ''connection refused''\<lparr>out_read := 3\<rparr>)])"
proof -
  let ?out = "fst (transport scripted_transport (net (playing [refuse ''connection refused'']))
       (snd (cloneBody (post [1, 2, 3]))))"
  have o: "?out = refuse ''connection refused''\<lparr>out_read := 3\<rparr>"
    by (simp add: playing_def clone_post scripted_step)
  have h: "out_err ?out = Some (Foreign ''connection refused'')"
    unfolding o by (simp add: refuse_def)
  have r: "out_resp ?out = None"
    unfolding o by (simp add: refuse_def)
  from RoundTrip_transport_error_returned [OF refl h, of None]
  show ?thesis
    unfolding r unfolding o by (simp add: playing_def clone_post refuse_def)
qed

text \<open>
  Claim C6. When the first attempt returns a response without an error and its status
  is none of 429, 502, 503, 504, \<open>RoundTrip\<close> returns that response and a nil
  error, and the only thing that happened is that one attempt.
\<close>

theorem RoundTrip_other_status_once:
  assumes "out = fst (transport t (net w) (snd (cloneBody req)))"
    and "out_err out = None" and "out_resp out = Some r"
    and "StatusCode r \<notin> {429, 502, 503, 504}"
  shows "\<exists>req' w'. RoundTrip t req w = (Inr (Some r, None), req', w') \<and>
            trace w' = trace w @ [Attempt (snd (cloneBody req)) out]"
proof -
  have sr: "shouldRetry t (out_err out) (out_resp out) = Inr (0, False)"
    using assms(2-4) by (simp add: shouldRetry_def)
  from RoundTrip_first_stop [OF sr assms(1)] assms(2,3) show ?thesis
    by simp
qed

theorem RoundTrip_other_status_once_witness:
  "out_err (reply 400\<lparr>out_read := 3\<rparr>) = None \<and>
   out_resp (reply 400\<lparr>out_read := 3\<rparr>) = out_resp (reply 400) \<and>
   StatusCode (the (out_resp (reply 400))) \<notin> {429, 502, 503, 504} \<and>
   (\<exists>req' w'. RoundTrip scripted_transport (post [1, 2, 3]) (playing [reply 400]) =
        (Inr (out_resp (reply 400), None), req', w') \<and>
      trace w' = [Attempt (post [1, 2, 3]) (reply 400\<lparr>out_read := 3\<rparr>)])"
proof -
  let ?out = "reply 400\<lparr>out_read := 3\<rparr>"
  let ?r = "\<lparr>StatusCode = 400, RespHeader = Map.empty, RespBody = Some (Reader [] None)\<rparr>"
  have o: "?out = fst (transport scripted_transport (net (playing [reply 400]))
       (snd (cloneBody (post [1, 2, 3]))))"
    by (simp add: playing_def clone_post scripted_step)
  have h1: "out_err ?out = None" and h2: "out_resp ?out = Some ?r"
    by (simp_all add: reply_def)
  have h3: "StatusCode ?r \<notin> {429, 502, 503, 504}"
    by simp
  from RoundTrip_other_status_once [OF o h1 h2 h3]
  show ?thesis
    by (simp add: playing_def clone_post reply_def)
qed

text \<open>
  Claim C2 as stated fails when the logger of the transport is nil (the function
  passed to \<open>NewRetryableClient\<close> or to \<open>WithLogWarn\<close>): with every attempt
  answering 503, the call panics at the first log line, after one attempt and before
  any wait.
\<close>

theorem RoundTrip_503_nil_logger_panics:
  "always_503 (steady_503 NilFunc) \<and>
   fst (RoundTrip (steady_503 NilFunc) (post [1, 2, 3]) quiet) = Inl NilDereference \<and>
   length (attempts (trace (snd (snd (RoundTrip (steady_503 NilFunc) (post [1, 2, 3]) quiet))))) = 1 \<and>
   sleeps (trace (snd (snd (RoundTrip (steady_503 NilFunc) (post [1, 2, 3]) quiet)))) = []"
proof -
  have n: "logger (steady_503 NilFunc) = NilFunc"
    by (simp add: steady_503_def)
  from RoundTrip_always_503_nil_logger [OF always_503_steady n, of "post [1, 2, 3]" quiet]
  show ?thesis
    by (auto simp: always_503_steady quiet_def)
qed

text \<open>
  Claim C2, amended. When every attempt answers 503 and the logger is not nil,
  \<open>RoundTrip\<close> makes \<open>RetryCount + 1 = 6\<close> attempts, sleeps 250 ms before each of
  the 5 retries (an attempt, then five times a wait and an attempt) and returns the
  error \<open>retry limit reached\<close>. When the logger is nil, it panics after the first
  attempt.
\<close>

theorem RoundTrip_503_exhausts_budget:
  assumes "always_503 t"
  shows "(logger t \<noteq> NilFunc \<longrightarrow>
          (\<exists>r' req' w' evs.
             RoundTrip t req w = (Inr (Some r', Some (ErrorsNew ''retry limit reached'')), req', w') \<and>
             StatusCode r' = 503 \<and>
             trace w' = trace w @ evs \<and>
             length (attempts evs) = RetryCount + 1 \<and>
             sleeps evs = replicate RetryCount (250 * Millisecond) \<and>
             timeline evs = Try # concat (replicate RetryCount [Wait (250 * Millisecond), Try]))) \<and>
         (logger t = NilFunc \<longrightarrow>
          (\<exists>req' w' out. RoundTrip t req w = (Inl NilDereference, req', w') \<and>
             trace w' = trace w @ [Attempt (snd (cloneBody req)) out]))"
  using RoundTrip_always_503 [OF assms, of req w]
    RoundTrip_always_503_nil_logger [OF assms, of req w]
  by blast

theorem RoundTrip_503_exhausts_budget_witness:
  "always_503 (steady_503 NoLog) \<and>
   (\<exists>r' req' w' evs.
      RoundTrip (steady_503 NoLog) (post [1, 2, 3]) quiet =
        (Inr (Some r', Some (ErrorsNew ''retry limit reached'')), req', w') \<and>
      StatusCode r' = 503 \<and>
      trace w' = trace quiet @ evs \<and>
      length (attempts evs) = RetryCount + 1 \<and>
      sleeps evs = replicate RetryCount (250 * Millisecond) \<and>
      timeline evs = Try # concat (replicate RetryCount [Wait (250 * Millisecond), Try]))"
proof -
  have h: "always_503 (steady_503 NoLog)"
    by (rule always_503_steady)
  have n: "logger (steady_503 NoLog) \<noteq> NilFunc"
    by (simp add: steady_503_def)
  from RoundTrip_503_exhausts_budget [OF h, of "post [1, 2, 3]" quiet] n h show ?thesis
    by blast
qed

text \<open>
  Claim C7. The loop is left with the counter at \<open>RetryCount\<close> exactly when
  \<open>RetryCount + 1\<close> attempts were made. Then \<open>RoundTrip\<close> returns the last
  attempt's response together with a new error: its message is
  \<open>retry limit reached (err=...)\<close> around the text of the last attempt's error when
  there was one, and \<open>retry limit reached\<close> otherwise.
\<close>

theorem RoundTrip_exhausted_message:
  assumes "RoundTrip t req w = (res, req', w')"
    and "trace w' = trace w @ evs"
    and "length (attempts evs) = RetryCount + 1"
    and "final = snd (last (attempts evs))"
  shows "\<exists>msg. res = Inr (out_resp final, Some (ErrorsNew msg)) \<and>
           (case out_err final of
              Some e \<Rightarrow> msg = ''retry limit reached (err='' @ Error e @ '')'' \<and> sublist (Error e) msg
            | None \<Rightarrow> msg = ''retry limit reached'')"
proof -
  obtain bb req0 where cb: "cloneBody req = (bb, req0)"
    by (cases "cloneBody req")
  let ?out = "fst (transport t (net w) req0)"
  obtain req1 w1 where s: "send t req0 w = (out_resp ?out, out_err ?out, req1, w1)"
    and tr1: "trace w1 = trace w @ [Attempt req0 ?out]"
    using send_ex [of t req0 w] by auto
  obtain lres req2 w2 where L: "retry_loop t bb req1 (out_resp ?out) (out_err ?out) 0 w1 = (lres, req2, w2)"
    by (metis prod_cases3)
  from loop_exit_state [OF _ L, of RetryCount]
  obtain evs1 where tr2: "trace w2 = trace w1 @ evs1"
    and R: "case lres of
              Inl p \<Rightarrow> length (attempts evs1) < RetryCount
            | Inr (resp', err', n') \<Rightarrow>
                n' = 0 + length (attempts evs1) \<and> n' \<le> RetryCount \<and>
                (resp', err') = last_outcome (out_resp ?out, out_err ?out) (attempts evs1)"
    by auto
  note U = RoundTrip_unfold [OF cb s L]
  have w2: "w' = w2"
    using U assms(1) by (auto split: sum.splits if_splits option.splits)
  have evs: "evs = Attempt req0 ?out # evs1"
    using assms(2) tr1 tr2 w2 by simp
  have len: "length (attempts evs1) = RetryCount"
    using assms(3) evs by simp
  obtain resp' err' where lres: "lres = Inr (resp', err', RetryCount)"
    and lo: "(resp', err') = last_outcome (out_resp ?out, out_err ?out) (attempts evs1)"
    using R len by (cases lres) auto
  have fin: "(resp', err') = (out_resp final, out_err final)"
    using lo assms(4) evs by (simp add: last_outcome_def)
  have res: "res = Inr (out_resp final, Some (ErrorsNew (exhausted_message (out_err final))))"
    using U assms(1) lres fin by (auto simp: exhausted_message_def split: option.splits)
  have "case out_err final of
          Some e \<Rightarrow> exhausted_message (out_err final) = ''retry limit reached (err='' @ Error e @ '')'' \<and>
                   sublist (Error e) (exhausted_message (out_err final))
        | None \<Rightarrow> exhausted_message (out_err final) = ''retry limit reached''"
    using exhausted_message_Some by (auto simp: exhausted_message_def split: option.splits)
  with res show ?thesis by blast
qed

theorem RoundTrip_exhausted_message_witness:
  "length (attempts (trace (snd (snd (RoundTrip scripted_transport (post [1, 2, 3])
      (playing [reply 503, reply 503, reply 503, reply 503, reply 503, refuse ''connection reset'']))))))
     = RetryCount + 1 \<and>
   (\<exists>msg. fst (RoundTrip scripted_transport (post [1, 2, 3])
      (playing [reply 503, reply 503, reply 503, reply 503, reply 503, refuse ''connection reset''])) =
        Inr (None, Some (ErrorsNew msg)) \<and>
      msg = ''retry limit reached (err=connection reset)'' \<and> sublist ''connection reset'' msg)"
proof -
  let ?out = "refuse ''connection reset''"
  let ?R = "RoundTrip scripted_transport (post [1, 2, 3])
      (playing [reply 503, reply 503, reply 503, reply 503, reply 503, ?out])"
  let ?evs = "trace (snd (snd ?R))"
  have R: "?R = (fst ?R, fst (snd ?R), snd (snd ?R))" by simp
  have T: "trace (snd (snd ?R)) = trace (playing [reply 503, reply 503, reply 503, reply 503, reply 503, ?out]) @ ?evs"
    by (simp add: playing_def)
  have A: "attempts ?evs =
             [(post [1, 2, 3], reply 503\<lparr>out_read := 3\<rparr>),
              (post [1, 2, 3], reply 503\<lparr>out_read := 3\<rparr>),
              (post [1, 2, 3], reply 503\<lparr>out_read := 3\<rparr>),
              (post [1, 2, 3], reply 503\<lparr>out_read := 3\<rparr>),
              (post [1, 2, 3], reply 503\<lparr>out_read := 3\<rparr>),
              (post [1, 2, 3], ?out\<lparr>out_read := 3\<rparr>)]"
    by (simp add: five_503_then attempts_round_503)
  have len: "length (attempts ?evs) = RetryCount + 1"
    unfolding A by (simp add: RetryCount_def)
  have fin: "?out\<lparr>out_read := 3\<rparr> = snd (last (attempts ?evs))"
    unfolding A by simp
  from RoundTrip_exhausted_message [OF R T len fin]
  show ?thesis
    using len by (simp add: refuse_def)
qed

text \<open>
  Claim C1, evaluated on the code. The transport answers 503 five times and then 200.
  The decision function does not ask for a retry after a 200, and yet \<open>RoundTrip\<close>
  returns the 200 response together with the error \<open>retry limit reached\<close>: the
  outcome of the attempt made after the fifth retry is never put to the decision
  function.
\<close>

theorem RoundTrip_final_success_reported_as_error:
  "shouldRetry scripted_transport None (out_resp (reply 200)) = Inr (0, False) \<and>
   fst (RoundTrip scripted_transport (post [1, 2, 3])
          (playing [reply 503, reply 503, reply 503, reply 503, reply 503, reply 200])) =
     Inr (out_resp (reply 200), Some (ErrorsNew ''retry limit reached''))"
  by (simp add: five_503_then) (simp add: shouldRetry_def reply_def exhausted_message_def)


section \<open>The request body across attempts\<close>

text \<open>
  Claim C5. Whatever the transport does and however the call ends, at least one
  attempt is made, and when the request came with a body holding the bytes
  \<open>bs\<close> (not empty), every attempt, the first and each retry, is handed a fresh
  buffer over exactly \<open>bs\<close>, although the transport consumes the body it is given.
  When the request has no body, nothing is cloned and every attempt is handed no body.
\<close>

theorem RoundTrip_body_identical:
  assumes "RoundTrip t req w = (res, req', w')"
    and "trace w' = trace w @ evs"
  shows "attempts evs \<noteq> [] \<and>
    (\<forall>rd. Body req = Some rd \<and> pending rd \<noteq> [] \<longrightarrow>
       (\<forall>c \<in> set (attempts evs). Body (fst c) = Some (Reader (pending rd) None))) \<and>
    (Body req = None \<longrightarrow>
       cloneBody req = ([], req) \<and> (\<forall>c \<in> set (attempts evs). Body (fst c) = None))"
proof -
  obtain bb req0 where cb: "cloneBody req = (bb, req0)"
    by (cases "cloneBody req")
  let ?out = "fst (transport t (net w) req0)"
  obtain req1 w1 where s: "send t req0 w = (out_resp ?out, out_err ?out, req1, w1)"
    and rq1: "req1 = req0\<lparr>Body := map_option (consume (out_read ?out)) (Body req0)\<rparr>"
    and tr1: "trace w1 = trace w @ [Attempt req0 ?out]"
    using send_ex [of t req0 w] by auto
  obtain lres req2 w2 where L: "retry_loop t bb req1 (out_resp ?out) (out_err ?out) 0 w1 = (lres, req2, w2)"
    by (metis prod_cases3)
  from loop_bodies [OF _ L, of RetryCount]
  obtain evs1 where tr2: "trace w2 = trace w1 @ evs1"
    and R: "\<forall>c \<in> set (attempts evs1). Body (fst c) = map_option (\<lambda>_. NewBuffer bb) (Body req1)"
    by auto
  note U = RoundTrip_unfold [OF cb s L]
  have w2: "w' = w2"
    using U assms(1) by (auto split: sum.splits if_splits option.splits)
  have evs: "evs = Attempt req0 ?out # evs1"
    using assms(2) tr1 tr2 w2 by simp
  have B0: "Body req0 = map_option (\<lambda>rd. NewBuffer (pending rd)) (Body req)"
    and bb: "\<And>rd. Body req = Some rd \<Longrightarrow> bb = pending rd"
    using cb by (auto simp: cloneBody_def ReadAll_def split: option.splits)
  have A: "\<forall>c \<in> set (attempts evs). Body (fst c) = map_option (\<lambda>rd. NewBuffer (pending rd)) (Body req)"
    using R evs B0 rq1 bb by (cases "Body req") simp_all
  have "attempts evs \<noteq> []" using evs by simp
  moreover have "\<forall>rd. Body req = Some rd \<and> pending rd \<noteq> [] \<longrightarrow>
       (\<forall>c \<in> set (attempts evs). Body (fst c) = Some (Reader (pending rd) None))"
    using A by (auto simp: NewBuffer_def)
  moreover have "Body req = None \<longrightarrow>
       cloneBody req = ([], req) \<and> (\<forall>c \<in> set (attempts evs). Body (fst c) = None)"
    using A by (auto simp: cloneBody_def)
  ultimately show ?thesis by blast
qed


theorem RoundTrip_body_identical_witness:
  "Body (post [1, 2, 3]) = Some (Reader [1, 2, 3] None) \<and>
   pending (Reader [1, 2, 3] None) \<noteq> [] \<and>
   map (\<lambda>c. Body (fst c)) (attempts (trace (snd (snd
     (RoundTrip scripted_transport (post [1, 2, 3]) (playing [reply 503, reply 200])))))) =
     [Some (Reader [1, 2, 3] None), Some (Reader [1, 2, 3] None)] \<and>
   Body bodiless = None \<and>
   map (\<lambda>c. Body (fst c)) (attempts (trace (snd (snd
     (RoundTrip scripted_transport bodiless (playing [reply 200])))))) = [None]"
proof -
  let ?R = "RoundTrip scripted_transport (post [1, 2, 3]) (playing [reply 503, reply 200])"
  let ?S = "RoundTrip scripted_transport bodiless (playing [reply 200])"
  have R: "?R = (fst ?R, fst (snd ?R), snd (snd ?R))"
    and S: "?S = (fst ?S, fst (snd ?S), snd (snd ?S))"
    by simp_all
  have T: "trace (snd (snd ?R)) = trace (playing [reply 503, reply 200]) @ trace (snd (snd ?R))"
    and U: "trace (snd (snd ?S)) = trace (playing [reply 200]) @ trace (snd (snd ?S))"
    by (simp_all add: playing_def)
  have b: "Body (post [1, 2, 3]) = Some (Reader [1, 2, 3] None)"
    by (simp add: post_def)
  have n: "Body bodiless = None"
    by (simp add: bodiless_def)
  have len: "length (attempts (trace (snd (snd ?R)))) = Suc (Suc 0)"
    by (simp add: one_503_then_200 attempts_round_503)
  have len': "length (attempts (trace (snd (snd ?S)))) = Suc 0"
    using bodiless_200 by auto
  have "\<forall>c \<in> set (attempts (trace (snd (snd ?R)))). Body (fst c) = Some (Reader [1, 2, 3] None)"
    using RoundTrip_body_identical [OF R T] b by simp
  from map_all_same [OF this]
  have 1: "map (\<lambda>c. Body (fst c)) (attempts (trace (snd (snd ?R)))) =
       [Some (Reader [1, 2, 3] None), Some (Reader [1, 2, 3] None)]"
    unfolding len by simp
  have "\<forall>c \<in> set (attempts (trace (snd (snd ?S)))). Body (fst c) = None"
    using RoundTrip_body_identical [OF S U] n by simp
  from map_all_same [OF this]
  have 2: "map (\<lambda>c. Body (fst c)) (attempts (trace (snd (snd ?S)))) = [None]"
    unfolding len' by simp
  from 1 2 b n show ?thesis by simp
qed


section \<open>The wait after 429\<close>

text \<open>
  Claim C3 as stated fails. \<open>strconv.Atoi\<close> accepts a sign, and the seconds are
  multiplied into an \<open>int64\<close> of nanoseconds: a \<open>Retry-After\<close> of \<open>-5\<close> gives a
  wait of minus five seconds, and \<open>9223372037\<close>, a non-negative integer, gives a
  negative wait as well, because the product wraps around.
\<close>

theorem shouldRetry_negative_wait:
  "shouldRetry scripted_transport None (Some (too_many (Some [''-5'']))) =
     Inr (- 5000000000, True) \<and>
   (- 5000000000 :: Duration) < 0 \<and>
   shouldRetry scripted_transport None (Some (too_many (Some [''9223372037'']))) =
     Inr (- 9223372036709551616, True)"
  by (simp add: shouldRetry_429 too_many_def Header_Get_def Atoi_def is_digit_def digit_val_def
      Second_def wrap64_def)

text \<open>
  Claim C3, amended. Every 429 response is retried. The wait is the configured
  default when the header is absent or malformed. When the header is a signed
  numeral, its value is saturated to the range of an \<open>int64\<close>; the wait is the
  default when that is zero, and otherwise that many seconds as an \<open>int64\<close> of
  nanoseconds, with wrap-around: for a value \<open>n\<close> with \<open>1 \<le> n \<le> 9223372036\<close>
  it is \<open>n\<close> seconds and positive, for \<open>- 9223372036 \<le> n \<le> - 1\<close> it is \<open>n\<close>
  seconds and negative.
\<close>

theorem shouldRetry_429_wait:
  assumes "StatusCode r = 429"
    and "h = Header_Get (RespHeader r) ''Retry-After''"
  shows "(\<exists>d. shouldRetry t None (Some r) = Inr (d, True)) \<and>
         (RespHeader r ''Retry-After'' = None \<or> malformed h
            \<longrightarrow> shouldRetry t None (Some r) = Inr (defaultWaitAfterTooManyRequests t, True)) \<and>
         (signed_numeral h
            \<longrightarrow> shouldRetry t None (Some r) =
                  Inr (if saturate64 (signed_value h) = 0 then defaultWaitAfterTooManyRequests t
                       else wrap64 (saturate64 (signed_value h) * Second), True)) \<and>
         (signed_numeral h \<and> 1 \<le> signed_value h \<and> signed_value h \<le> 9223372036
            \<longrightarrow> shouldRetry t None (Some r) = Inr (signed_value h * Second, True) \<and>
                0 < signed_value h * Second) \<and>
         (signed_numeral h \<and> - 9223372036 \<le> signed_value h \<and> signed_value h \<le> - 1
            \<longrightarrow> shouldRetry t None (Some r) = Inr (signed_value h * Second, True) \<and>
                signed_value h * Second < 0)"
proof -
  note S = shouldRetry_429 [OF assms(1), of t, folded assms(2)]
  have absent: "RespHeader r ''Retry-After'' = None \<Longrightarrow> malformed h"
    using assms(2) by (simp add: Header_Get_def malformed_def unsigned_part_def)
  have 1: "\<exists>d. shouldRetry t None (Some r) = Inr (d, True)"
    using S by simp
  have 2: "malformed h \<Longrightarrow> shouldRetry t None (Some r) = Inr (defaultWaitAfterTooManyRequests t, True)"
    using S Atoi_malformed [of h] by simp
  have 3: "shouldRetry t None (Some r) =
             Inr (if saturate64 (signed_value h) = 0 then defaultWaitAfterTooManyRequests t
                  else wrap64 (saturate64 (signed_value h) * Second), True)"
    if "signed_numeral h"
    using S Atoi_signed [OF that] by simp
  have 4: "shouldRetry t None (Some r) = Inr (signed_value h * Second, True)"
    if n: "signed_numeral h" and nz: "signed_value h \<noteq> 0"
      and lo: "- 9223372036 \<le> signed_value h" and hi: "signed_value h \<le> 9223372036"
  proof -
    have sat: "saturate64 (signed_value h) = signed_value h"
      using lo hi by (simp add: saturate64_def)
    have "wrap64 (signed_value h * Second) = signed_value h * Second"
      using lo hi by (intro wrap64_id) (simp_all add: Second_def)
    with 3 [OF n] sat nz show ?thesis by simp
  qed
  have 5: "shouldRetry t None (Some r) = Inr (signed_value h * Second, True) \<and>
           0 < signed_value h * Second"
    if "signed_numeral h" "1 \<le> signed_value h" "signed_value h \<le> 9223372036"
    using 4 [of] that by (simp add: Second_def)
  have 6: "shouldRetry t None (Some r) = Inr (signed_value h * Second, True) \<and>
           signed_value h * Second < 0"
    if "signed_numeral h" "- 9223372036 \<le> signed_value h" "signed_value h \<le> - 1"
    using 4 [of] that by (simp add: Second_def)
  show ?thesis using absent 1 2 3 5 6 by blast
qed

theorem shouldRetry_429_wait_witness:
  "shouldRetry scripted_transport None (Some (too_many (Some [''2'']))) =
     Inr (2 * Second, True) \<and>
   shouldRetry scripted_transport None (Some (too_many (Some [''+3'']))) =
     Inr (3 * Second, True) \<and>
   shouldRetry scripted_transport None (Some (too_many (Some [''-5'']))) =
     Inr (- 5 * Second, True) \<and>
   shouldRetry (scripted_transport\<lparr>defaultWaitAfterTooManyRequests := 30 * Second\<rparr>) None
       (Some (too_many None)) = Inr (30 * Second, True) \<and>
   shouldRetry (scripted_transport\<lparr>defaultWaitAfterTooManyRequests := 30 * Second\<rparr>) None
       (Some (too_many (Some [''soon'']))) = Inr (30 * Second, True) \<and>
   shouldRetry (scripted_transport\<lparr>defaultWaitAfterTooManyRequests := 30 * Second\<rparr>) None
       (Some (too_many (Some [''0'']))) = Inr (30 * Second, True)"
proof -
  let ?t30 = "scripted_transport\<lparr>defaultWaitAfterTooManyRequests := 30 * Second\<rparr>"
  have s: "StatusCode (too_many v) = 429" for v
    by (simp add: too_many_def)
  have h: "x = Header_Get (RespHeader (too_many (Some [x]))) ''Retry-After''" for x
    by (simp add: too_many_def Header_Get_def)
  have h0: "RespHeader (too_many None) ''Retry-After'' = None"
    by (simp add: too_many_def)
  have n: "signed_numeral ''2''" "signed_value ''2'' = 2"
    "signed_numeral ''+3''" "signed_value ''+3'' = 3"
    "signed_numeral ''-5''" "signed_value ''-5'' = - 5"
    "signed_numeral ''0''" "signed_value ''0'' = 0"
    by (simp_all add: signed_numeral_def signed_value_def unsigned_part_def numeral_string_def
        decimal_def is_digit_def digit_val_def)
  have m: "malformed ''soon''"
    by (simp add: malformed_def unsigned_part_def is_digit_def)
  have z: "saturate64 0 = 0"
    by (simp add: saturate64_def)
  have r2: "1 \<le> signed_value ''2''" "signed_value ''2'' \<le> 9223372036"
    and r3: "1 \<le> signed_value ''+3''" "signed_value ''+3'' \<le> 9223372036"
    and r5: "- 9223372036 \<le> signed_value ''-5''" "signed_value ''-5'' \<le> - 1"
    using n by simp_all
  have "shouldRetry scripted_transport None (Some (too_many (Some [''2'']))) =
          Inr (signed_value ''2'' * Second, True)"
    using shouldRetry_429_wait [OF s [of "Some [''2'']"] h [of "''2''"], of scripted_transport] n(1) r2 by blast
  then have a: "shouldRetry scripted_transport None (Some (too_many (Some [''2'']))) = Inr (2 * Second, True)"
    by (simp only: n)
  have "shouldRetry scripted_transport None (Some (too_many (Some [''+3'']))) =
          Inr (signed_value ''+3'' * Second, True)"
    using shouldRetry_429_wait [OF s [of "Some [''+3'']"] h [of "''+3''"], of scripted_transport] n(3) r3 by blast
  then have b: "shouldRetry scripted_transport None (Some (too_many (Some [''+3'']))) = Inr (3 * Second, True)"
    by (simp only: n)
  have "shouldRetry scripted_transport None (Some (too_many (Some [''-5'']))) =
          Inr (signed_value ''-5'' * Second, True)"
    using shouldRetry_429_wait [OF s [of "Some [''-5'']"] h [of "''-5''"], of scripted_transport] n(5) r5 by blast
  then have c: "shouldRetry scripted_transport None (Some (too_many (Some [''-5'']))) = Inr (- 5 * Second, True)"
    by (simp only: n)
  have t30: "defaultWaitAfterTooManyRequests ?t30 = 30 * Second"
    by simp
  have "shouldRetry ?t30 None (Some (too_many None)) = Inr (defaultWaitAfterTooManyRequests ?t30, True)"
    using shouldRetry_429_wait [OF s [of None] refl, of ?t30] h0 by blast
  then have d: "shouldRetry ?t30 None (Some (too_many None)) = Inr (30 * Second, True)"
    by (simp only: t30)
  have "shouldRetry ?t30 None (Some (too_many (Some [''soon'']))) =
          Inr (defaultWaitAfterTooManyRequests ?t30, True)"
    using shouldRetry_429_wait [OF s [of "Some [''soon'']"] h [of "''soon''"], of ?t30] m by blast
  then have e: "shouldRetry ?t30 None (Some (too_many (Some [''soon'']))) = Inr (30 * Second, True)"
    by (simp only: t30)
  have "shouldRetry ?t30 None (Some (too_many (Some [''0'']))) =
          Inr (if saturate64 (signed_value ''0'') = 0 then defaultWaitAfterTooManyRequests ?t30
               else wrap64 (saturate64 (signed_value ''0'') * Second), True)"
    using shouldRetry_429_wait [OF s [of "Some [''0'']"] h [of "''0''"], of ?t30] n(7) by blast
  then have f: "shouldRetry ?t30 None (Some (too_many (Some [''0'']))) = Inr (30 * Second, True)"
    by (simp only: n z t30 refl if_True)
  from a b c d e f show ?thesis by blast
qed

section \<open>Run: the checks on entry\<close>

text \<open>
  Claim C8. When the channel of the context is already closed on entry, \<open>Run\<close>
  returns what \<open>ctx.Err()\<close> returns and nothing else happens: the request is as it
  was and the world has no new event, so nothing was encoded and no HTTP client was
  called.
\<close>

theorem Run_cancelled_context:
  assumes "Done_closed ctx"
  shows "Run pf c ctx req w = (Inr (Err ctx), req, w)"
  using assms by (simp add: Run_def)

theorem Run_cancelled_context_witness:
  "Done_closed cancelled \<and>
   Run stub_platform (NewClient ''http://localhost/graphql'' []) cancelled
     (NewRequest ''{ me }'') idle =
     (Inr (Some (Foreign ''context canceled'')), NewRequest ''{ me }'', idle)"
proof -
  have h: "Done_closed cancelled" by (simp add: cancelled_def)
  from Run_cancelled_context [OF h] h show ?thesis by (simp add: cancelled_def)
qed

text \<open>
  Claim C10 as stated fails for a context that is already cancelled: the check of the
  context comes first, and \<open>Run\<close> returns the context's error for a request with a
  file on a client without multipart form.
\<close>

theorem Run_files_cancelled_context:
  "files upload \<noteq> [] \<and> \<not> useMultipartForm (NewClient ''http://localhost/graphql'' []) \<and>
   fst (Run stub_platform (NewClient ''http://localhost/graphql'' []) cancelled upload idle) =
     Inr (Some (Foreign ''context canceled'')) \<and>
   fst (Run stub_platform (NewClient ''http://localhost/graphql'' []) cancelled upload idle) \<noteq>
     Inr (Some (ErrorsNew ''cannot send files with PostFields option''))"
  by (simp add: Run_def cancelled_def upload_def Request_File_def NewClient_def)

text \<open>
  Claim C10, amended. For a request with at least one file and a client without
  multipart form, \<open>Run\<close> returns the error \<open>cannot send files with PostFields
  option\<close> when the context is not done on entry, and the context's error when it is;
  either way the request is as it was and the world has no new event: no HTTP attempt
  was made.
\<close>

theorem Run_files_without_multipart:
  assumes "files req \<noteq> []" and "\<not> useMultipartForm c"
  shows "Run pf c ctx req w =
     (Inr (if Done_closed ctx then Err ctx
           else Some (ErrorsNew ''cannot send files with PostFields option'')), req, w)"
  using assms by (simp add: Run_def)

theorem Run_files_without_multipart_witness:
  "files upload \<noteq> [] \<and> \<not> useMultipartForm (NewClient ''http://localhost/graphql'' []) \<and>
   Run stub_platform (NewClient ''http://localhost/graphql'' []) background upload idle =
     (Inr (Some (ErrorsNew ''cannot send files with PostFields option'')), upload, idle)"
proof -
  have f: "files upload \<noteq> []"
    by (simp add: upload_def Request_File_def)
  have m: "\<not> useMultipartForm (NewClient ''http://localhost/graphql'' [])"
    by (simp add: NewClient_def)
  from Run_files_without_multipart [OF f m, of stub_platform background idle] f m show ?thesis
    by (simp add: background_def)
qed


section \<open>Which HTTP client a client uses\<close>




end
